theory Spec2Isabelle
  imports Complex_Main "HOL-Library.Word" "HOL-Library.Signed_Division"
begin

section \<open>Line.cpp: local line enumeration of a hexahedron\<close>

text \<open>
  The C++ \<^verbatim>\<open>int\<close> is a 32-bit two's complement word. Comparison is the signed one,
  and \<^verbatim>\<open>/\<close> truncates towards zero, which is \<open>sdiv\<close> on the signed readings.
\<close>

type_synonym cint = "32 word"

definition c_div :: "cint \<Rightarrow> cint \<Rightarrow> cint" where
  "c_div a b = word_of_int (sint a sdiv sint b)"

text \<open>
  \<^verbatim>\<open>int Line::getLineEnumeration(int vert1, int vert2)\<close>: the two arguments are swapped
  when \<^verbatim>\<open>vert2 < vert1\<close>, then the difference selects the family of the edge.
\<close>

definition getLineEnumeration :: "cint \<Rightarrow> cint \<Rightarrow> cint" where
  "getLineEnumeration a b =
     (let (vert1, vert2) = (if b <s a then (b, a) else (a, b))
      in if vert2 - vert1 = 1 then c_div vert1 2
         else if vert2 - vert1 = 2 then c_div (vert2 + vert1) 4 + 4
         else if vert2 - vert1 = 4 then vert1 + 8
         else - 1)"

text \<open>A corner index of a hexahedron is one of 0, ..., 7.\<close>

definition corner_index :: "cint \<Rightarrow> bool" where
  "corner_index a \<longleftrightarrow> 0 \<le>s a \<and> a \<le>s 7"

text \<open>
  The edge slot as the specification words it, on mathematical integers: the smaller and
  the larger index, and the three families by their difference.
\<close>

definition line_slot :: "int \<Rightarrow> int \<Rightarrow> int" where
  "line_slot i j =
     (let lo = min i j; hi = max i j
      in if hi - lo = 1 then lo div 2
         else if hi - lo = 2 then (lo + hi) div 4 + 4
         else if hi - lo = 4 then lo + 8
         else - 1)"

section \<open>Line.cpp: equality of lines by their control points\<close>

text \<open>
  A \<^verbatim>\<open>Line\<close> holds the vector \<^verbatim>\<open>cp\<close> of its control points (its two end vertices are not
  read by \<^verbatim>\<open>equals\<close>). The point type and its euclidean distance \<^verbatim>\<open>Point::dist\<close> belong to
  the geometry library, so the distance is a parameter \<open>pdist\<close> of the model; the receiver
  of \<^verbatim>\<open>dist\<close> is its first argument.
\<close>

record 'p Line =
  cp :: "'p list"

text \<open>
  Both loops of \<^verbatim>\<open>Line::equals\<close> walk two iterators in step, stop at the end of either
  vector, and return false at the first pair that is further apart than the tolerance.
\<close>

fun equals_loop :: "('p \<Rightarrow> 'p \<Rightarrow> real) \<Rightarrow> real \<Rightarrow> 'p list \<Rightarrow> 'p list \<Rightarrow> bool" where
  "equals_loop pdist tol (this_cp # ps) (cp_new # qs) =
     (if pdist this_cp cp_new > tol then False else equals_loop pdist tol ps qs)"
| "equals_loop pdist tol _ _ = True"

text \<open>
  \<^verbatim>\<open>bool Line::equals(Line *l, double tol)\<close>. Dereferencing \<^verbatim>\<open>l->cp.begin()\<close>,
  \<^verbatim>\<open>cp.front()\<close> or \<^verbatim>\<open>cp.back()\<close> of an empty vector is undefined: the model returns
  \<open>None\<close> there.
\<close>

definition equals :: "('p \<Rightarrow> 'p \<Rightarrow> real) \<Rightarrow> 'p Line \<Rightarrow> 'p Line \<Rightarrow> real \<Rightarrow> bool option" where
  "equals pdist this l tol =
     (if cp this = [] \<or> cp l = [] then None
      else let cp_new = hd (cp l)
           in if pdist cp_new (hd (cp this)) < tol
                then Some (equals_loop pdist tol (cp this) (cp l))
              else if pdist cp_new (last (cp this)) < tol
                then Some (equals_loop pdist tol (rev (cp this)) (cp l))
              else Some False)"

text \<open>The distance on the real line, for lines whose control points are numbers.\<close>

definition dist1 :: "real \<Rightarrow> real \<Rightarrow> real" where
  "dist1 x y = \<bar>x - y\<bar>"

section \<open>main_getPROP.cpp: the command-line program\<close>

text \<open>
  The program keeps its configuration in globals (\<^verbatim>\<open>verbose\<close>, \<^verbatim>\<open>inFile\<close>, \<^verbatim>\<open>inFileName\<close>,
  \<^verbatim>\<open>model\<close>) and talks to the world through \<^verbatim>\<open>cout\<close>, \<^verbatim>\<open>cerr\<close> and files. The state of a
  run is a record of these: the two streams as the lists of the lines written so far, and
  \<open>written\<close> as the log of the files opened for writing with what was written to them.
\<close>

record 'm program =
  verbose :: bool
  inFile :: bool
  inFileName :: string
  model :: 'm
  cout :: "string list"
  cerr :: "string list"
  written :: "(string \<times> string) list"

text \<open>
  The methods of \<^verbatim>\<open>SplineModel\<close> and \<^verbatim>\<open>TopologySet\<close> that the program calls are declared in
  the headers only; the program is modelled over any implementation of them. Streams are
  passed as their content, and \<open>show_int\<close> is the decimal output of an \<^verbatim>\<open>int\<close>.
\<close>

record 'm SplineModel_ops =
  model_readSplines :: "string \<Rightarrow> 'm \<Rightarrow> 'm"
  model_enforceRightHandSystem :: "'m \<Rightarrow> bool \<times> 'm"
  model_writeSplines :: "'m \<Rightarrow> string"
  model_readModelProperties :: "string \<Rightarrow> 'm \<Rightarrow> 'm"
  model_writeModelProperties :: "'m \<Rightarrow> string"
  topology_numbVertices :: "'m \<Rightarrow> int"
  topology_numbLines :: "'m \<Rightarrow> int"
  topology_numbNonDegenLines :: "'m \<Rightarrow> int"
  topology_numbFaces :: "'m \<Rightarrow> int"
  topology_numbNonDegenFaces :: "'m \<Rightarrow> int"
  topology_numbVolumes :: "'m \<Rightarrow> int"
  show_int :: "int \<Rightarrow> string"

text \<open>A call of \<^verbatim>\<open>exit\<close> ends the run with a status; otherwise the function returns.\<close>

datatype 'a outcome = Exit int 'a | Return 'a

definition fileUsage :: string where
  "fileUsage = ''File usage: gpm [-v] <inputFile> \<newline>  \<newline>  Arguments\<newline>''
     @ ''    <inputFile>  : one or more .g2-files describing the spline volumes \<newline>''
     @ ''  FLAGS\<newline>    -v           : verbose output  \<newline>''
     @ ''    -in <inFile> : uses <inFile> as command input instead of standard in\<newline>''
     @ ''    -help        : display this help screen''"

text \<open>
  The loop of \<^verbatim>\<open>processParameters\<close> over \<^verbatim>\<open>argv[1]\<close>, ..., \<^verbatim>\<open>argv[argc-1]\<close>, with the local
  \<^verbatim>\<open>fileRead\<close> carried along. The file system \<open>fs\<close> gives the content of each file that can
  be opened for reading and \<open>None\<close> for the others.
\<close>

fun processArgs :: "'m SplineModel_ops \<Rightarrow> (string \<Rightarrow> string option) \<Rightarrow> string list
    \<Rightarrow> bool \<Rightarrow> 'm program \<Rightarrow> (bool \<times> 'm program) outcome" where
  "processArgs ops fs [] fileRead st = Return (fileRead, st)"
| \<open>processArgs ops fs (arg # rest) fileRead st =
     (if arg = ''-v'' then processArgs ops fs rest fileRead (st\<lparr>verbose := True\<rparr>)
      else if arg = ''-help'' then Exit 0 (fileRead, st\<lparr>cout := cout st @ [fileUsage]\<rparr>)
      else if arg = ''-in'' then
        (case rest of
           [] \<Rightarrow> Exit 1 (fileRead,
                   st\<lparr>cerr := cerr st @ [''Error: must specify an input filename to read'']\<rparr>)
         | name # rest' \<Rightarrow>
             processArgs ops fs rest' fileRead (st\<lparr>inFileName := name, inFile := True\<rparr>))
      else
        (case fs arg of
           None \<Rightarrow> Exit 1 (fileRead,
                   st\<lparr>cerr := cerr st @ [''Error reading input file "'' @ arg @ ''"'']\<rparr>)
         | Some content \<Rightarrow>
             processArgs ops fs rest True (st\<lparr>model := model_readSplines ops content (model st)\<rparr>)))\<close>

definition processParameters :: "'m SplineModel_ops \<Rightarrow> (string \<Rightarrow> string option) \<Rightarrow> string list
    \<Rightarrow> 'm program \<Rightarrow> 'm program outcome" where
  "processParameters ops fs args st =
     (case processArgs ops fs args False st of
        Exit status (fileRead, st') \<Rightarrow> Exit status st'
      | Return (fileRead, st') \<Rightarrow>
          if \<not> fileRead then Exit 1 (st'\<lparr>cout := cout st' @ [fileUsage]\<rparr>) else Return st')"

text \<open>
  Standard input is a stream over the characters that are still to be read, with the flag
  \<^verbatim>\<open>good()\<close>. \<^verbatim>\<open>getline(cin, str)\<close> on a stream that is not good fails and leaves \<open>str\<close>
  as it is. On a good stream it replaces \<open>str\<close> by the characters up to the next newline
  and consumes them with the newline; when the input ends before a newline it takes what
  is left and the stream is not good from then on.
\<close>

record istream =
  buffer :: string
  good :: bool

definition getline :: "istream \<Rightarrow> string \<Rightarrow> istream \<times> string" where
  "getline cin str =
     (if \<not> good cin then (cin, str)
      else (case dropWhile (\<lambda>c. c \<noteq> CHR 0x0A) (buffer cin) of
              [] \<Rightarrow> (\<lparr>buffer = [], good = False\<rparr>,
                     takeWhile (\<lambda>c. c \<noteq> CHR 0x0A) (buffer cin))
            | nl # rest \<Rightarrow> (\<lparr>buffer = rest, good = True\<rparr>,
                     takeWhile (\<lambda>c. c \<noteq> CHR 0x0A) (buffer cin))))"

text \<open>
  The interactive loop of \<^verbatim>\<open>main\<close>: prompt, read a line, hand it to the model, and go on
  while the line is not empty. The loop need not end: after a last line without a newline
  every further \<^verbatim>\<open>getline\<close> fails and leaves that line in \<open>str\<close>. A run of the loop that
  never ends has the value \<open>None\<close>.
\<close>

partial_function (option) readStdin ::
    "'m SplineModel_ops \<Rightarrow> istream \<Rightarrow> string \<Rightarrow> 'm program \<Rightarrow> 'm program option" where
  "readStdin ops cin str st =
     (case getline cin str of
        (cin', str') \<Rightarrow>
          if length str' > 0
          then readStdin ops cin' str'
                 (st\<lparr>cout := cout st @ [''> ''],
                     model := model_readModelProperties ops str' (model st)\<rparr>)
          else Some (st\<lparr>cout := cout st @ [''> ''],
                        model := model_readModelProperties ops str' (model st)\<rparr>))"

text \<open>The start of a run: the initial values of the globals, nothing written yet.\<close>

definition initial :: "'m \<Rightarrow> 'm program" where
  "initial m = \<lparr>verbose = False, inFile = False, inFileName = [], model = m,
     cout = [], cerr = [], written = []\<rparr>"

text \<open>A file is opened for reading with the content last written to it in this run, if any.\<close>

definition open_read :: "(string \<Rightarrow> string option) \<Rightarrow> 'm program \<Rightarrow> string \<Rightarrow> string option" where
  "open_read fs st name =
     (case map_of (rev (written st)) name of Some content \<Rightarrow> Some content | None \<Rightarrow> fs name)"

text \<open>
  The blocks of \<^verbatim>\<open>main\<close> after the arguments, in the order of the source. First the
  orientation is enforced, and when the model was changed the warning goes to \<^verbatim>\<open>cerr\<close> and
  the splines are written to \<^verbatim>\<open>reparameterized.g2\<close> (the program does not test whether
  that file could be opened).
\<close>

definition reparameterize :: "'m SplineModel_ops \<Rightarrow> 'm program \<Rightarrow> 'm program" where
  \<open>reparameterize ops st =
     (let (changed, m') = model_enforceRightHandSystem ops (model st);
          st1 = st\<lparr>model := m'\<rparr>
      in if changed
         then st1\<lparr>cerr := cerr st1 @
                   [''WARNING: system reparameterized to strict right-hand-system. '',
                    ''         stored in "reparameterized.g2"''],
                  written := written st1 @ [(''reparameterized.g2'', model_writeSplines ops m')]\<rparr>
         else st1)\<close>

text \<open>The verbose report; its counts are read from the model as it is at that point.\<close>

definition report :: "'m SplineModel_ops \<Rightarrow> 'm program \<Rightarrow> 'm program" where
  "report ops st =
     (if verbose st
      then st\<lparr>cout := cout st @
        [''Total number of vertices: '' @ show_int ops (topology_numbVertices ops (model st)),
         ''Total number of lines   : '' @ show_int ops (topology_numbLines ops (model st)) @ '' (''
           @ show_int ops (topology_numbNonDegenLines ops (model st)) @ '' non-degenerate ones) '',
         ''Total number of faces   : '' @ show_int ops (topology_numbFaces ops (model st)) @ '' (''
           @ show_int ops (topology_numbNonDegenFaces ops (model st)) @ '' non-degenerate ones) '',
         ''Total number of volumes : '' @ show_int ops (topology_numbVolumes ops (model st))]\<rparr>
      else st)"

text \<open>
  The properties are read from the file named after \<^verbatim>\<open>-in\<close>, or from standard input with
  \<open>str\<close> empty at first. The value is \<open>None\<close> when the loop over standard input never
  ends.
\<close>

definition readProperties :: "'m SplineModel_ops \<Rightarrow> (string \<Rightarrow> string option) \<Rightarrow> string
    \<Rightarrow> 'm program \<Rightarrow> 'm program outcome option" where
  \<open>readProperties ops fs stdin st =
     (if inFile st then
        (case open_read fs st (inFileName st) of
           None \<Rightarrow> Some (Exit 1 (st\<lparr>cerr := cerr st @
                     [''Error opening file: "'' @ inFileName st @ ''"'']\<rparr>))
         | Some content \<Rightarrow>
             Some (Return (st\<lparr>model := model_readModelProperties ops content (model st)\<rparr>)))
      else
        (case readStdin ops \<lparr>buffer = stdin, good = True\<rparr> [] st of
           None \<Rightarrow> None
         | Some st' \<Rightarrow> Some (Return st')))\<close>

text \<open>
  \<^verbatim>\<open>int main(int argc, char **argv)\<close>, on the arguments after the program name and the
  content of standard input. The result is the exit status with the final state; when the
  loop over standard input never ends there is no exit status, and the state is the one
  in which that loop was entered (the loop changes \<open>cout\<close> and the model only).
\<close>

definition main :: "'m SplineModel_ops \<Rightarrow> (string \<Rightarrow> string option) \<Rightarrow> string
    \<Rightarrow> 'm \<Rightarrow> string list \<Rightarrow> int option \<times> 'm program" where
  "main ops fs stdin m args =
     (case processParameters ops fs args (initial m) of
        Exit status st \<Rightarrow> (Some status, st)
      | Return st \<Rightarrow>
          (case readProperties ops fs stdin (report ops (reparameterize ops st)) of
             None \<Rightarrow> (None, report ops (reparameterize ops st))
           | Some (Exit status st') \<Rightarrow> (Some status, st')
           | Some (Return st') \<Rightarrow>
               (Some 0, st'\<lparr>cout := cout st' @ [model_writeModelProperties ops (model st')]\<rparr>)))"

text \<open>
  The arguments that \<^verbatim>\<open>processParameters\<close> takes for input files: those that are no flag
  and not the file name after \<^verbatim>\<open>-in\<close>; and whether a \<^verbatim>\<open>-in\<close> stands last, with no name after
  it.
\<close>

fun fileArgs :: "string list \<Rightarrow> string list" where
  "fileArgs [] = []"
| "fileArgs (arg # rest) =
     (if arg = ''-v'' \<or> arg = ''-help'' then fileArgs rest
      else if arg = ''-in'' then (case rest of [] \<Rightarrow> [] | name # rest' \<Rightarrow> fileArgs rest')
      else arg # fileArgs rest)"

fun missingInName :: "string list \<Rightarrow> bool" where
  "missingInName [] = False"
| "missingInName (arg # rest) =
     (if arg = ''-in'' then (case rest of [] \<Rightarrow> True | name # rest' \<Rightarrow> missingInName rest')
      else missingInName rest)"

text \<open>
  Whether \<^verbatim>\<open>-help\<close> stands among the arguments as a flag, that is, not as the name after
  \<^verbatim>\<open>-in\<close>; and the arguments that \<^verbatim>\<open>processParameters\<close> works through without leaving: no
  \<^verbatim>\<open>-help\<close> flag, no \<^verbatim>\<open>-in\<close> without a name, every input file readable.
\<close>

fun helpFlag :: "string list \<Rightarrow> bool" where
  "helpFlag [] = False"
| "helpFlag (arg # rest) =
     (if arg = ''-help'' then True
      else if arg = ''-in'' then (case rest of [] \<Rightarrow> False | name # rest' \<Rightarrow> helpFlag rest')
      else helpFlag rest)"

definition accepted :: "(string \<Rightarrow> string option) \<Rightarrow> string list \<Rightarrow> bool" where
  "accepted fs args \<longleftrightarrow>
     \<not> helpFlag args \<and> \<not> missingInName args \<and> list_all (\<lambda>f. fs f \<noteq> None) (fileArgs args)"

definition isFlag :: "string \<Rightarrow> bool" where
  "isFlag arg \<longleftrightarrow> arg = ''-v'' \<or> arg = ''-help'' \<or> arg = ''-in''"

text \<open>
  A small implementation of the model operations, to run the program on: a model is the
  list of the signs of its patches, and a patch file holds either the text
  \<open>left-handed\<close> or anything else.
\<close>

definition sign_ops :: "int list SplineModel_ops" where
  "sign_ops = \<lparr>
     model_readSplines = (\<lambda>content m. m @ [if content = ''left-handed'' then - 1 else 1]),
     model_enforceRightHandSystem = (\<lambda>m. (\<exists>j \<in> set m. j < 0, map abs m)),
     model_writeSplines = (\<lambda>m. replicate (length m) CHR ''p''),
     model_readModelProperties = (\<lambda>content m. m),
     model_writeModelProperties = (\<lambda>m. []),
     topology_numbVertices = (\<lambda>m. 8 * int (length m)),
     topology_numbLines = (\<lambda>m. 12 * int (length m)),
     topology_numbNonDegenLines = (\<lambda>m. 12 * int (length m)),
     topology_numbFaces = (\<lambda>m. 6 * int (length m)),
     topology_numbNonDegenFaces = (\<lambda>m. 6 * int (length m)),
     topology_numbVolumes = (\<lambda>m. int (length m)),
     show_int = (\<lambda>i. ''#'')\<rparr>"

definition no_files :: "string \<Rightarrow> string option" where
  "no_files = Map.empty"

definition two_files :: "string \<Rightarrow> string option" where
  "two_files = [''left.g2'' \<mapsto> ''left-handed'', ''right.g2'' \<mapsto> ''right-handed'']"

section \<open>SplineModel: enforcing a right-hand system\<close>

text \<open>
  The geometry kernel is external. What \<^verbatim>\<open>enforceRightHandSystem\<close> asks of it is the
  parametric Jacobian of a patch at an interior sample point and the reversal of one
  parametric direction of a patch; both are parameters of the model.
\<close>

record 'v GeometryKernel =
  jacobian :: "'v \<Rightarrow> real"
  reverseParameterDirection :: "'v \<Rightarrow> 'v"

text \<open>Of the members of \<^verbatim>\<open>SplineModel\<close>: whether the model is volumetric, and its volumes.\<close>

record 'v SplineModel =
  volumetric_model :: bool
  spline_volumes :: "'v list"

text \<open>
  Modelled from the spec: the loop over the patches in
  \<^verbatim>\<open>SplineModel::enforceRightHandSystem\<close>, which is declared in SplineModel.h and defined
  in a file that is not part of the sources. Section 4.3: every patch is asked for the sign
  of its Jacobian, any patch with a negative sign has one parametric direction reversed,
  and the result says whether any patch changed.
\<close>

fun enforce_patches :: "'v GeometryKernel \<Rightarrow> 'v list \<Rightarrow> bool \<times> 'v list" where
  "enforce_patches K [] = (False, [])"
| "enforce_patches K (v # vs) =
     (let (changed, vs') = enforce_patches K vs
      in if jacobian K v < 0 then (True, reverseParameterDirection K v # vs')
         else (changed, v # vs'))"

text \<open>
  Modelled from the spec: \<^verbatim>\<open>SplineModel::enforceRightHandSystem\<close> (body not part of the
  sources). Section 4.3: the patches are treated for volumetric models only; the result is
  whether any patch changed, and the model with the rewritten patches.
\<close>

definition enforceRightHandSystem :: "'v GeometryKernel \<Rightarrow> 'v SplineModel \<Rightarrow> bool \<times> 'v SplineModel" where
  "enforceRightHandSystem K m =
     (if volumetric_model m
      then (let (changed, vs') = enforce_patches K (spline_volumes m)
            in (changed, m\<lparr>spline_volumes := vs'\<rparr>))
      else (False, m))"

text \<open>
  A kernel to run the model on: a patch is a trilinear volume given by its eight corner
  points with integer coordinates, corner \<open>i + 2 j + 4 k\<close> at the parameters \<open>(i, j, k)\<close>.
  Its Jacobian at the centre is, up to a positive factor, the triple product of the three
  sums of edge vectors, and reversing the third direction swaps the two layers of corners.
\<close>

type_synonym point3 = "int \<times> int \<times> int"

definition minus3 :: "point3 \<Rightarrow> point3 \<Rightarrow> point3" where
  "minus3 p q = (case (p, q) of ((a, b, c), (d, e, f)) \<Rightarrow> (a - d, b - e, c - f))"

definition plus3 :: "point3 \<Rightarrow> point3 \<Rightarrow> point3" where
  "plus3 p q = (case (p, q) of ((a, b, c), (d, e, f)) \<Rightarrow> (a + d, b + e, c + f))"

definition triple_product :: "point3 \<Rightarrow> point3 \<Rightarrow> point3 \<Rightarrow> int" where
  "triple_product u v w =
     (case (u, v, w) of ((a, b, c), (d, e, f), (g, h, i)) \<Rightarrow>
        (b * f - c * e) * g + (c * d - a * f) * h + (a * e - b * d) * i)"

fun cube_jacobian :: "point3 list \<Rightarrow> real" where
  "cube_jacobian [p0, p1, p2, p3, p4, p5, p6, p7] =
     of_int (triple_product
       (minus3 (plus3 (plus3 p1 p3) (plus3 p5 p7)) (plus3 (plus3 p0 p2) (plus3 p4 p6)))
       (minus3 (plus3 (plus3 p2 p3) (plus3 p6 p7)) (plus3 (plus3 p0 p1) (plus3 p4 p5)))
       (minus3 (plus3 (plus3 p4 p5) (plus3 p6 p7)) (plus3 (plus3 p0 p1) (plus3 p2 p3))))"
| "cube_jacobian ps = 0"

fun cube_reverse :: "point3 list \<Rightarrow> point3 list" where
  "cube_reverse [p0, p1, p2, p3, p4, p5, p6, p7] = [p4, p5, p6, p7, p0, p1, p2, p3]"
| "cube_reverse ps = ps"

definition cube_kernel :: "point3 list GeometryKernel" where
  "cube_kernel = \<lparr>jacobian = cube_jacobian, reverseParameterDirection = cube_reverse\<rparr>"

text \<open>The unit cube, and the unit cube with its third direction pointing down.\<close>

definition unit_cube :: "point3 list" where
  "unit_cube = [(0, 0, 0), (1, 0, 0), (0, 1, 0), (1, 1, 0),
                (0, 0, 1), (1, 0, 1), (0, 1, 1), (1, 1, 1)]"

definition left_handed_cube :: "point3 list" where
  "left_handed_cube = [(0, 0, 1), (1, 0, 1), (0, 1, 1), (1, 1, 1),
                       (0, 0, 0), (1, 0, 0), (0, 1, 0), (1, 1, 0)]"

section \<open>SplineModel: global numbering\<close>

text \<open>
  The data model of the topology, from section 3 of the specification. A control point is
  identified by a value of the type \<open>'p\<close>, so that two control points are geometrically
  coincident exactly when they are equal; the tolerance-based matching that decides this
  belongs to the construction of the topology. A canonical line is a \<open>Line\<close> as above, the
  ordered sequence of its control points with the two end points included. A canonical
  face is the grid of its control points, row by row, the first parametric direction
  running along a row.
\<close>

record 'p Face =
  grid :: "'p list list"

text \<open>
  A volume is the primitive set of one patch: for each of its local corner, edge and face
  slots the index of the canonical vertex, line and face, together with the control points
  of the patch along that edge and over that face in the patch's own local order, and the
  number of control points in the interior of the patch. A volume has 8, 12 and 6 slots;
  the patch of a surface model is the case of 4 corners, 4 edges and no face slot, and its
  record \<^verbatim>\<open>surfGlobNumber\<close> has the vertex and edge entries of \<^verbatim>\<open>volGlobNumber\<close>.
\<close>

record 'p Volume =
  corner :: "nat list"
  line :: "nat list"
  line_cp :: "'p list list"
  face :: "nat list"
  face_cp :: "'p list list list"
  inner :: nat

text \<open>
  The members of \<^verbatim>\<open>TopologySet\<close> (TopologySet.h): the canonical vertices, lines, faces
  and volumes, each in the order in which it is iterated.
\<close>

record 'p TopologySet =
  vertex_set :: "'p list"
  line_set :: "'p Line list"
  face_set :: "'p Face list"
  volume_set :: "'p Volume list"

text \<open>A line is degenerate when its end points coincide, a face when two of its corners do.\<close>

definition degenerate_line :: "'p Line \<Rightarrow> bool" where
  "degenerate_line l \<longleftrightarrow> hd (cp l) = last (cp l)"

definition row_length :: "'p list list \<Rightarrow> nat" where
  "row_length g = (case g of [] \<Rightarrow> 0 | r # rs \<Rightarrow> length r)"

definition face_corners :: "'p list list \<Rightarrow> 'p list" where
  "face_corners g = [hd (hd g), last (hd g), hd (last g), last (last g)]"

definition degenerate_face :: "'p Face \<Rightarrow> bool" where
  "degenerate_face f \<longleftrightarrow> \<not> distinct (face_corners (grid f))"

text \<open>The interior points: all points but the two end points, all points off the boundary.\<close>

definition line_interior :: "'p Line \<Rightarrow> nat" where
  "line_interior l = length (cp l) - 2"

definition face_interior :: "'p Face \<Rightarrow> nat" where
  "face_interior f = (row_length (grid f) - 2) * (length (grid f) - 2)"

text \<open>
  The result of the index assignment pass: the index of every canonical vertex, the first
  index of the range of every canonical line, face and volume that has one, and the first
  index that is still free.
\<close>

record Numbering =
  vertex_no :: "nat list"
  line_start :: "nat option list"
  face_start :: "nat option list"
  volume_start :: "nat option list"
  next_no :: nat

text \<open>
  Modelled from the spec: the loop of the index assignment pass of
  \<^verbatim>\<open>SplineModel::generateGlobalNumbers\<close>, which is declared in SplineModel.h and defined in
  a file that is not part of the sources. Section 4.4, phase 1: every entity that is
  numbered takes one contiguous range of indices of the size of its interior, starting at
  the running counter; an entity that is not numbered (\<open>None\<close>) takes none.
\<close>

fun assign :: "nat \<Rightarrow> nat option list \<Rightarrow> nat option list \<times> nat" where
  "assign c [] = ([], c)"
| "assign c (None # ns) = (let (ss, c') = assign c ns in (None # ss, c'))"
| "assign c (Some n # ns) = (let (ss, c') = assign (c + n) ns in (Some c # ss, c'))"

text \<open>
  Modelled from the spec: the sizes of the ranges (same absent body). Section 4.4, phase
  1: a non-degenerate line takes its points minus the two end points, a non-degenerate
  face its interior grid points, a volume its interior points; degenerate lines and faces
  take no range.
\<close>

definition line_sizes :: "'p TopologySet \<Rightarrow> nat option list" where
  "line_sizes T =
     map (\<lambda>l. if degenerate_line l then None else Some (line_interior l)) (line_set T)"

definition face_sizes :: "'p TopologySet \<Rightarrow> nat option list" where
  "face_sizes T =
     map (\<lambda>f. if degenerate_face f then None else Some (face_interior f)) (face_set T)"

definition volume_sizes :: "'p TopologySet \<Rightarrow> nat option list" where
  "volume_sizes T = map (\<lambda>V. Some (inner V)) (volume_set T)"

text \<open>
  Modelled from the spec: the index assignment pass of
  \<^verbatim>\<open>SplineModel::generateGlobalNumbers\<close> and, with a start offset, of
  \<^verbatim>\<open>generateGlobalNumbersPETSc\<close> (bodies not part of the sources). Section 4.4, phase 1: in
  fixed order all canonical vertices, one index each, then all non-degenerate canonical
  lines, then all non-degenerate canonical faces, then the interior of each volume (a
  surface model has no volumes).
\<close>

definition assignNumbers :: "'p TopologySet \<Rightarrow> nat \<Rightarrow> Numbering" where
  "assignNumbers T iStart =
     (let vs = map (\<lambda>k. iStart + k) [0..<length (vertex_set T)];
          c1 = iStart + length (vertex_set T);
          (ls, c2) = assign c1 (line_sizes T);
          (fs, c3) = assign c2 (face_sizes T);
          (ws, c4) = assign c3 (volume_sizes T)
      in \<lparr>vertex_no = vs, line_start = ls, face_start = fs, volume_start = ws,
          next_no = c4\<rparr>)"

text \<open>
  The indices that a numbering has assigned, in the order of the assignment: the ranges
  of the numbered entities, one after the other.
\<close>

fun ranges :: "nat option list \<Rightarrow> nat option list \<Rightarrow> nat list" where
  "ranges (Some s # ss) (Some n # ns) = [s..<s + n] @ ranges ss ns"
| "ranges (s # ss) (n # ns) = ranges ss ns"
| "ranges ss ns = []"

definition assigned :: "'p TopologySet \<Rightarrow> Numbering \<Rightarrow> nat list" where
  "assigned T N =
     vertex_no N @ ranges (line_start N) (line_sizes T)
     @ ranges (face_start N) (face_sizes T) @ ranges (volume_start N) (volume_sizes T)"

definition range_total :: "nat option list \<Rightarrow> nat" where
  "range_total ns = sum_list (map (\<lambda>n. case n of None \<Rightarrow> 0 | Some k \<Rightarrow> k) ns)"

text \<open>
  The count of the specification: the canonical vertices, plus the interior points of the
  non-degenerate lines, of the non-degenerate faces, and of the volumes.
\<close>

definition total :: "'p TopologySet \<Rightarrow> nat" where
  "total T = length (vertex_set T)
     + sum_list (map line_interior (filter (\<lambda>l. \<not> degenerate_line l) (line_set T)))
     + sum_list (map face_interior (filter (\<lambda>f. \<not> degenerate_face f) (face_set T)))
     + sum_list (map inner (volume_set T))"

text \<open>The numbering record of a volume, \<^verbatim>\<open>struct volGlobNumber\<close> of SplineModel.h.\<close>

record volGlobNumber =
  vertex :: "int list"
  edge :: "int list"
  edge_incr :: "int list"
  surface :: "int list"
  surface_incr_i :: "int list"
  surface_incr_j :: "int list"
  volume :: int

text \<open>
  Modelled from the spec: the start and increment that \<^verbatim>\<open>generateGlobalNumbers\<close> (body
  not part of the sources) stores for a local edge slot. Section 4.4, phase 2: the local
  traversal direction of the patch is compared with the stored control-point order of the
  canonical line; if they agree the increment is +1 from the canonical start, if reversed
  it is -1 and the start is the far end of the canonical range. The specification gives no
  rule for a line without a range; the entry is left at 0 there.
\<close>

definition edge_entry :: "Numbering \<Rightarrow> 'p TopologySet \<Rightarrow> 'p Volume \<Rightarrow> nat \<Rightarrow> int \<times> int" where
  "edge_entry N T V k =
     (let l = line_set T ! (line V ! k)
      in case line_start N ! (line V ! k) of
           None \<Rightarrow> (0, 0)
         | Some s \<Rightarrow>
             if line_cp V ! k = cp l then (int s, 1)
             else (int s + (int (line_interior l) - 1), - 1))"

text \<open>
  The ways a patch can see a canonical face (section 4.1: direction reversal and axis
  swap): \<open>flip\<close> swaps the two directions, \<open>ru\<close> and \<open>rv\<close> reverse the first and the second
  local direction. \<open>local_view\<close> is the grid that a patch with that orientation has for
  the canonical grid \<open>g\<close>.
\<close>

definition local_view :: "bool \<times> bool \<times> bool \<Rightarrow> 'p list list \<Rightarrow> 'p list list" where
  "local_view o3 g =
     (case o3 of (flip, ru, rv) \<Rightarrow>
        let d1 = (if flip then length g else row_length g);
            d2 = (if flip then row_length g else length g)
        in map (\<lambda>b. map (\<lambda>a.
               let a' = (if ru then d1 - 1 - a else a);
                   b' = (if rv then d2 - 1 - b else b)
               in if flip then g ! a' ! b' else g ! b' ! a') [0..<d1]) [0..<d2])"

definition orientations :: "(bool \<times> bool \<times> bool) list" where
  "orientations = [(False, False, False), (False, True, False), (False, False, True),
     (False, True, True), (True, False, False), (True, True, False), (True, False, True),
     (True, True, True)]"

text \<open>
  Modelled from the spec: the start and the two increments that \<^verbatim>\<open>generateGlobalNumbers\<close>
  (body not part of the sources) stores for a local face slot. Section 4.4, phase 2 states
  the rule for one direction (agreeing: +1 from the canonical start; reversed: -1 from the
  far end) and that a face has a start and two signed increments of an affine formula. The
  model applies the rule to each of the two local directions: a step along the rows of the
  canonical grid counts 1 and a step across its rows counts one row of interior points
  \<open>m1\<close>, and the start is the index of the interior point at the local origin. The
  interior of the canonical face is numbered row by row.
\<close>

definition surface_triple :: "int \<Rightarrow> int \<Rightarrow> int \<Rightarrow> bool \<times> bool \<times> bool \<Rightarrow> int \<times> int \<times> int" where
  "surface_triple s m1 m2 o3 =
     (case o3 of (flip, ru, rv) \<Rightarrow>
        if flip
        then (s + (if rv then m1 - 1 else 0) + (if ru then (m2 - 1) * m1 else 0),
              if ru then - m1 else m1, if rv then - 1 else 1)
        else (s + (if ru then m1 - 1 else 0) + (if rv then (m2 - 1) * m1 else 0),
              if ru then - 1 else 1, if rv then - m1 else m1))"

text \<open>
  Modelled from the spec: the entry of a local face slot (same absent body). The
  orientation is found by comparing the local grid of the patch with the views of the
  canonical grid; the entry is left at 0 for a face without a range.
\<close>

definition surface_entry :: "Numbering \<Rightarrow> 'p TopologySet \<Rightarrow> 'p Volume \<Rightarrow> nat \<Rightarrow> int \<times> int \<times> int" where
  "surface_entry N T V k =
     (let g = grid (face_set T ! (face V ! k))
      in case face_start N ! (face V ! k) of
           None \<Rightarrow> (0, 0, 0)
         | Some s \<Rightarrow>
             (case find (\<lambda>o3. local_view o3 g = face_cp V ! k) orientations of
                None \<Rightarrow> (0, 0, 0)
              | Some o3 \<Rightarrow>
                  surface_triple (int s) (int (row_length g) - 2) (int (length g) - 2) o3))"

text \<open>
  Modelled from the spec: the numbering record that \<^verbatim>\<open>generateGlobalNumbers\<close> (body not
  part of the sources) builds for the patch with index \<open>i\<close>. Section 4.4, phase 2: for
  every local vertex, edge and face slot the start index and the signed increments, and
  the start of the interior of the volume.
\<close>

definition makeEnumeration :: "Numbering \<Rightarrow> 'p TopologySet \<Rightarrow> nat \<Rightarrow> volGlobNumber" where
  "makeEnumeration N T i =
     (let V = volume_set T ! i
      in \<lparr>vertex = map (\<lambda>c. int (vertex_no N ! c)) (corner V),
          edge = map (\<lambda>k. fst (edge_entry N T V k)) [0..<length (line V)],
          edge_incr = map (\<lambda>k. snd (edge_entry N T V k)) [0..<length (line V)],
          surface = map (\<lambda>k. fst (surface_entry N T V k)) [0..<length (face V)],
          surface_incr_i = map (\<lambda>k. fst (snd (surface_entry N T V k))) [0..<length (face V)],
          surface_incr_j = map (\<lambda>k. snd (snd (surface_entry N T V k))) [0..<length (face V)],
          volume = (case volume_start N ! i of None \<Rightarrow> 0 | Some s \<Rightarrow> int s)\<rparr>)"

text \<open>
  Modelled from the spec: \<^verbatim>\<open>SplineModel::generateGlobalNumbersPETSc\<close> without the mixed
  mode and \<^verbatim>\<open>SplineModel::generateGlobalNumbers\<close> (declared in SplineModel.h, bodies not
  part of the sources): the assignment pass, then one numbering record per patch, in the
  order of the patches. The plain variant starts at 0.
\<close>

definition generateGlobalNumbersPETSc :: "'p TopologySet \<Rightarrow> nat \<Rightarrow> volGlobNumber list" where
  "generateGlobalNumbersPETSc T iStart =
     map (makeEnumeration (assignNumbers T iStart) T) [0..<length (volume_set T)]"

definition generateGlobalNumbers :: "'p TopologySet \<Rightarrow> volGlobNumber list" where
  "generateGlobalNumbers T = generateGlobalNumbersPETSc T 0"

text \<open>
  Modelled from the spec: the evaluation of the stored formula of a patch (section 4.4,
  \<open>global = start + increment * local coordinate\<close>) at the control point with the index
  \<open>t\<close> along a local edge, and with the indices \<open>(a, b)\<close> over a local face; the first
  interior point has the index 1.
\<close>

definition edge_number :: "volGlobNumber \<Rightarrow> nat \<Rightarrow> nat \<Rightarrow> int" where
  "edge_number vl2g k t = edge vl2g ! k + edge_incr vl2g ! k * (int t - 1)"

definition surface_number :: "volGlobNumber \<Rightarrow> nat \<Rightarrow> nat \<Rightarrow> nat \<Rightarrow> int" where
  "surface_number vl2g k a b =
     surface vl2g ! k + surface_incr_i vl2g ! k * (int a - 1)
       + surface_incr_j vl2g ! k * (int b - 1)"

text \<open>
  What the construction of the topology provides. A line has its two end points, a face
  is a rectangular grid with at least two points in each direction, and an entity that is
  not degenerate does not pass through a control point twice. Every slot of a volume refers
  to an existing canonical entity, and the patch sees that entity in one of the accepted
  orientations: a line forward or reversed, a face in one of the eight views.
\<close>

definition wf_line :: "'p Line \<Rightarrow> bool" where
  "wf_line l \<longleftrightarrow> 2 \<le> length (cp l) \<and> (degenerate_line l \<or> distinct (cp l))"

definition wf_face :: "'p Face \<Rightarrow> bool" where
  "wf_face f \<longleftrightarrow> 2 \<le> length (grid f) \<and> 2 \<le> row_length (grid f)
     \<and> list_all (\<lambda>r. length r = row_length (grid f)) (grid f)
     \<and> (degenerate_face f \<or> distinct (concat (grid f)))"

definition wf_volume :: "'p TopologySet \<Rightarrow> 'p Volume \<Rightarrow> bool" where
  "wf_volume T V \<longleftrightarrow>
     list_all (\<lambda>c. c < length (vertex_set T)) (corner V)
     \<and> length (line_cp V) = length (line V)
     \<and> list_all (\<lambda>(e, lc). e < length (line_set T)
          \<and> (lc = cp (line_set T ! e) \<or> lc = rev (cp (line_set T ! e))))
         (zip (line V) (line_cp V))
     \<and> length (face_cp V) = length (face V)
     \<and> list_all (\<lambda>(f, fc). f < length (face_set T)
          \<and> list_ex (\<lambda>o3. fc = local_view o3 (grid (face_set T ! f))) orientations)
         (zip (face V) (face_cp V))"

definition wf_topology :: "'p TopologySet \<Rightarrow> bool" where
  "wf_topology T \<longleftrightarrow> list_all wf_line (line_set T) \<and> list_all wf_face (face_set T)
     \<and> list_all (wf_volume T) (volume_set T)"

text \<open>
  A topology to run the numbering on: two patches with 4 x 3 x 2 and 3 x 4 x 2 control
  points, the control points named by numbers. The second patch sits on the top face of
  the first with its first two directions swapped and one of them reversed, so the two
  patches share four vertices, four lines and one face, and see two of the shared lines
  and the shared face in different orientations.
\<close>

definition two_patches :: "nat TopologySet" where
  "two_patches = \<lparr>
     vertex_set = [0, 3, 8, 11, 12, 15, 20, 23, 24, 26, 33, 35],
     line_set = [\<lparr>cp = [0, 1, 2, 3]\<rparr>,
       \<lparr>cp = [8, 9, 10, 11]\<rparr>,
       \<lparr>cp = [12, 13, 14, 15]\<rparr>,
       \<lparr>cp = [20, 21, 22, 23]\<rparr>,
       \<lparr>cp = [0, 4, 8]\<rparr>,
       \<lparr>cp = [3, 7, 11]\<rparr>,
       \<lparr>cp = [12, 16, 20]\<rparr>,
       \<lparr>cp = [15, 19, 23]\<rparr>,
       \<lparr>cp = [0, 12]\<rparr>,
       \<lparr>cp = [3, 15]\<rparr>,
       \<lparr>cp = [8, 20]\<rparr>,
       \<lparr>cp = [11, 23]\<rparr>,
       \<lparr>cp = [24, 25, 26]\<rparr>,
       \<lparr>cp = [33, 34, 35]\<rparr>,
       \<lparr>cp = [24, 27, 30, 33]\<rparr>,
       \<lparr>cp = [26, 29, 32, 35]\<rparr>,
       \<lparr>cp = [15, 24]\<rparr>,
       \<lparr>cp = [23, 26]\<rparr>,
       \<lparr>cp = [12, 33]\<rparr>,
       \<lparr>cp = [20, 35]\<rparr>],
     face_set = [\<lparr>grid = [[0, 4, 8], [12, 16, 20]]\<rparr>,
       \<lparr>grid = [[3, 7, 11], [15, 19, 23]]\<rparr>,
       \<lparr>grid = [[0, 1, 2, 3], [12, 13, 14, 15]]\<rparr>,
       \<lparr>grid = [[8, 9, 10, 11], [20, 21, 22, 23]]\<rparr>,
       \<lparr>grid = [[0, 1, 2, 3], [4, 5, 6, 7], [8, 9, 10, 11]]\<rparr>,
       \<lparr>grid = [[12, 13, 14, 15], [16, 17, 18, 19], [20, 21, 22, 23]]\<rparr>,
       \<lparr>grid = [[15, 14, 13, 12], [24, 27, 30, 33]]\<rparr>,
       \<lparr>grid = [[23, 22, 21, 20], [26, 29, 32, 35]]\<rparr>,
       \<lparr>grid = [[15, 19, 23], [24, 25, 26]]\<rparr>,
       \<lparr>grid = [[12, 16, 20], [33, 34, 35]]\<rparr>,
       \<lparr>grid = [[24, 25, 26], [27, 28, 29], [30, 31, 32], [33, 34, 35]]\<rparr>],
     volume_set = [\<lparr>corner = [0, 1, 2, 3, 4, 5, 6, 7],
        line = [0, 1, 2, 3, 4, 5, 6, 7, 8, 9, 10, 11],
        line_cp = [[0, 1, 2, 3], [8, 9, 10, 11], [12, 13, 14, 15], [20, 21, 22, 23],
           [0, 4, 8], [3, 7, 11], [12, 16, 20], [15, 19, 23], [0, 12], [3, 15], [8, 20],
           [11, 23]],
        face = [0, 1, 2, 3, 4, 5],
        face_cp =
         [[[0, 4, 8], [12, 16, 20]],
          [[3, 7, 11], [15, 19, 23]],
          [[0, 1, 2, 3], [12, 13, 14, 15]],
          [[8, 9, 10, 11], [20, 21, 22, 23]],
          [[0, 1, 2, 3], [4, 5, 6, 7], [8, 9, 10, 11]],
          [[12, 13, 14, 15], [16, 17, 18, 19], [20, 21, 22, 23]]],
        inner = 0\<rparr>,
       \<lparr>corner = [5, 7, 4, 6, 8, 9, 10, 11],
        line = [7, 6, 12, 13, 2, 3, 14, 15, 16, 17, 18, 19],
        line_cp = [[15, 19, 23], [12, 16, 20], [24, 25, 26], [33, 34, 35], [15, 14, 13, 12],
           [23, 22, 21, 20], [24, 27, 30, 33], [26, 29, 32, 35], [15, 24], [23, 26], [12, 33],
           [20, 35]],
        face = [6, 7, 8, 9, 5, 10],
        face_cp =
         [[[15, 14, 13, 12], [24, 27, 30, 33]],
          [[23, 22, 21, 20], [26, 29, 32, 35]],
          [[15, 19, 23], [24, 25, 26]],
          [[12, 16, 20], [33, 34, 35]],
          [[15, 19, 23], [14, 18, 22], [13, 17, 21], [12, 16, 20]],
          [[24, 25, 26], [27, 28, 29], [30, 31, 32], [33, 34, 35]]],
        inner = 0\<rparr>]\<rparr>"

section \<open>Properties of the line enumeration\<close>

lemma sint_inj: "sint a = sint b \<Longrightarrow> a = (b::cint)"
  by (rule signed_word_eqI)

lemma ordered_pair_sym:
  "(if b <s a then (b, a) else (a, b)) = (if a <s b then (a, b) else (b, (a::cint)))"
  using sint_inj [of a b] by (auto simp: word_sless_alt)

lemma getLineEnumeration_commute: "getLineEnumeration a b = getLineEnumeration b a"
  unfolding getLineEnumeration_def ordered_pair_sym [of a b] by (rule refl)

lemma corner_sint: "corner_index a \<longleftrightarrow> 0 \<le> sint a \<and> sint a \<le> 7"
  by (simp add: corner_index_def word_sle_eq)

lemma corner_cases:
  assumes "corner_index a"
  shows "a \<in> {0, 1, 2, 3, 4, 5, 6, 7}"
proof -
  from assms have "0 \<le> sint a" "sint a \<le> 7"
    by (simp_all add: corner_sint)
  then have "sint a = 0 \<or> sint a = 1 \<or> sint a = 2 \<or> sint a = 3
      \<or> sint a = 4 \<or> sint a = 5 \<or> sint a = 6 \<or> sint a = 7"
    by arith
  then have "word_of_int (sint a) \<in> {0, 1, 2, 3, 4, 5, 6, 7::cint}"
    by (elim disjE) simp_all
  then show ?thesis by simp
qed

lemma corner_disj:
  "corner_index a \<Longrightarrow> a = 0 \<or> a = 1 \<or> a = 2 \<or> a = 3 \<or> a = 4 \<or> a = 5 \<or> a = 6 \<or> a = 7"
  using corner_cases [of a] by simp

lemma getLineEnumeration_table:
  assumes "corner_index a" "corner_index b"
  shows "sint (getLineEnumeration a b) = line_slot (sint a) (sint b)"
  using corner_disj [OF assms(1)] corner_disj [OF assms(2)]
  apply (elim disjE)
  apply (simp_all add: word_sless_alt getLineEnumeration_def c_div_def
      signed_divide_int_def line_slot_def)
  done

lemma sentinel_sint: "(w = - 1) \<longleftrightarrow> sint (w::cint) = - 1"
  using sint_inj [of w "- 1"] by auto

lemma line_slot_sentinel:
  assumes "0 \<le> i" "i \<le> 7" "0 \<le> j" "j \<le> 7"
  shows "line_slot i j = - 1 \<longleftrightarrow> \<bar>i - j\<bar> \<notin> {1, 2, 4}"
proof -
  have "0 \<le> min i j" using assms by simp
  then have "0 \<le> min i j div 2" "0 \<le> (min i j + max i j) div 4"
    using assms by (simp_all add: pos_imp_zdiv_nonneg_iff)
  moreover have "max i j - min i j = \<bar>i - j\<bar>" by (simp add: max_def min_def)
  ultimately show ?thesis
    using \<open>0 \<le> min i j\<close> by (auto simp: line_slot_def Let_def)
qed

text \<open>
  C2. For corner indices \<open>a\<close> and \<open>b\<close> (each in 0..7), \<open>getLineEnumeration a b\<close> equals
  \<open>getLineEnumeration b a\<close>, and the result is the sentinel -1 exactly when the absolute
  difference of the two indices is none of 1, 2 and 4.
\<close>

theorem getLineEnumeration_symmetric_sentinel:
  assumes "corner_index a" and "corner_index b"
  shows "getLineEnumeration a b = getLineEnumeration b a
    \<and> (getLineEnumeration a b = - 1 \<longleftrightarrow> \<bar>sint a - sint b\<bar> \<notin> {1, 2, 4})"
proof -
  have "line_slot (sint a) (sint b) = - 1 \<longleftrightarrow> \<bar>sint a - sint b\<bar> \<notin> {1, 2, 4}"
    using assms by (intro line_slot_sentinel) (simp_all add: corner_sint)
  then show ?thesis
    using getLineEnumeration_table [OF assms] getLineEnumeration_commute [of a b]
    by (simp add: sentinel_sint)
qed

theorem getLineEnumeration_symmetric_sentinel_witness:
  "corner_index 3 \<and> corner_index 7 \<and> corner_index 6
    \<and> getLineEnumeration 3 7 = getLineEnumeration 7 3 \<and> getLineEnumeration 3 7 \<noteq> - 1
    \<and> getLineEnumeration 3 6 = getLineEnumeration 6 3 \<and> getLineEnumeration 3 6 = - 1"
proof -
  have c: "corner_index 3" "corner_index 7" "corner_index 6"
    by (simp_all add: corner_sint)
  show ?thesis
    using c getLineEnumeration_symmetric_sentinel [OF c(1) c(2)]
      getLineEnumeration_symmetric_sentinel [OF c(1) c(3)]
    by auto
qed

text \<open>
  C3. For corner indices, with \<open>lo\<close> the smaller and \<open>hi\<close> the larger of the two: a
  difference of 1 gives the u-edge slot \<open>lo div 2\<close>, a value in 0..3; a difference of 2
  gives the v-edge slot \<open>(lo + hi) div 4 + 4\<close>, a value in 4..7; a difference of 4 gives the
  w-edge slot \<open>lo + 8\<close>, a value in 8..11; so every result other than the sentinel is one
  of the twelve edge slots 0..11.
\<close>

theorem getLineEnumeration_slots:
  assumes "corner_index a" and "corner_index b"
  shows "(max (sint a) (sint b) - min (sint a) (sint b) = 1 \<longrightarrow>
            sint (getLineEnumeration a b) = min (sint a) (sint b) div 2
            \<and> sint (getLineEnumeration a b) \<in> {0..3})
    \<and> (max (sint a) (sint b) - min (sint a) (sint b) = 2 \<longrightarrow>
            sint (getLineEnumeration a b) = (min (sint a) (sint b) + max (sint a) (sint b)) div 4 + 4
            \<and> sint (getLineEnumeration a b) \<in> {4..7})
    \<and> (max (sint a) (sint b) - min (sint a) (sint b) = 4 \<longrightarrow>
            sint (getLineEnumeration a b) = min (sint a) (sint b) + 8
            \<and> sint (getLineEnumeration a b) \<in> {8..11})
    \<and> (getLineEnumeration a b \<noteq> - 1 \<longrightarrow> sint (getLineEnumeration a b) \<in> {0..11})"
proof -
  define i j where "i = sint a" and "j = sint b"
  have r: "0 \<le> i" "i \<le> 7" "0 \<le> j" "j \<le> 7"
    using assms by (simp_all add: corner_sint i_def j_def)
  have t: "sint (getLineEnumeration a b) = line_slot i j"
    using getLineEnumeration_table [OF assms] by (simp add: i_def j_def)
  have s: "getLineEnumeration a b \<noteq> - 1 \<longleftrightarrow> line_slot i j \<noteq> - 1"
    by (simp add: sentinel_sint t)
  have u: "max i j - min i j = 1 \<longrightarrow> line_slot i j = min i j div 2 \<and> line_slot i j \<in> {0..3}"
    using r by (auto simp: line_slot_def Let_def max_def min_def)
  have v: "max i j - min i j = 2 \<longrightarrow>
      line_slot i j = (min i j + max i j) div 4 + 4 \<and> line_slot i j \<in> {4..7}"
    using r by (auto simp: line_slot_def Let_def max_def min_def)
  have w: "max i j - min i j = 4 \<longrightarrow> line_slot i j = min i j + 8 \<and> line_slot i j \<in> {8..11}"
    using r by (auto simp: line_slot_def Let_def max_def min_def)
  have x: "line_slot i j \<noteq> - 1 \<longrightarrow> line_slot i j \<in> {0..11}"
    using r by (auto simp: line_slot_def Let_def max_def min_def)
  show ?thesis
    unfolding t s i_def [symmetric] j_def [symmetric] using u v w x by blast
qed

theorem getLineEnumeration_slots_witness:
  "corner_index 0 \<and> corner_index 1 \<and> corner_index 3 \<and> corner_index 7
    \<and> sint (getLineEnumeration 0 1) = 0
    \<and> sint (getLineEnumeration 3 1) = 5
    \<and> sint (getLineEnumeration 3 7) = 11"
proof -
  have c: "corner_index 0" "corner_index 1" "corner_index 3" "corner_index 7"
    by (simp_all add: corner_sint)
  show ?thesis
    using c getLineEnumeration_slots [OF c(1) c(2)] getLineEnumeration_slots [OF c(3) c(2)]
      getLineEnumeration_slots [OF c(3) c(4)]
    by simp
qed

section \<open>Properties of the equality of lines\<close>

lemma equals_loop_zip:
  "equals_loop pdist tol xs ys \<longleftrightarrow> (\<forall>(p, q) \<in> set (zip xs ys). pdist p q \<le> tol)"
  by (induction pdist tol xs ys rule: equals_loop.induct) auto

text \<open>
  C4. The claim, like the documentation of the function (``comparing all controlpoints'',
  ``True if all control points are equal''), asks for false when the two sequences have
  different lengths. On a line with the control points 0 and 1 and an argument with the
  single control point 0 the loop stops at the end of the shorter vector and the code
  answers true.
\<close>

theorem Line_equals_length_mismatch:
  "length (cp \<lparr>cp = [0, 1 :: real]\<rparr>) \<noteq> length (cp \<lparr>cp = [0 :: real]\<rparr>)
    \<and> equals dist1 \<lparr>cp = [0, 1]\<rparr> \<lparr>cp = [0]\<rparr> (1 / 10) = Some True"
  by (simp add: equals_def dist1_def)

text \<open>
  C5. The claim, like the documentation of the function (``will try both orientations''),
  asks that a line matches the copy of itself with the control points reversed. On the
  line with the control points 0, 5, 1, 0, whose two ends coincide, and its reversed copy
  0, 1, 5, 0 the code takes the forward pairing, never tries the reversed one (which
  matches every pair), and answers false, at the positive tolerance 1/10.
\<close>

theorem Line_equals_reversed_mismatch:
  "(0 :: real) < 1 / 10
    \<and> rev (cp \<lparr>cp = [0, 5, 1, 0 :: real]\<rparr>) = cp \<lparr>cp = [0, 1, 5, 0 :: real]\<rparr>
    \<and> equals_loop dist1 (1 / 10) (rev (cp \<lparr>cp = [0, 5, 1, 0]\<rparr>)) (cp \<lparr>cp = [0, 1, 5, 0]\<rparr>)
    \<and> equals dist1 \<lparr>cp = [0, 5, 1, 0]\<rparr> \<lparr>cp = [0, 1, 5, 0]\<rparr> (1 / 10) = Some False"
  by (simp add: equals_def dist1_def)

text \<open>
  C10. \<open>equals\<close> settles the traversal direction on the first control point of the
  argument alone. When that point is within the tolerance of the first control point of
  this line, the result is that of the forward pairing, whatever the reversed pairing would
  give; the reversed pairing decides only when the point misses the front and is within the
  tolerance of the back; and the result is false when it is within the tolerance of
  neither end.
\<close>

theorem Line_equals_commits_direction:
  assumes "cp this \<noteq> []" and "cp l \<noteq> []"
  shows "(pdist (hd (cp l)) (hd (cp this)) < tol \<longrightarrow>
            equals pdist this l tol
              = Some (\<forall>(p, q) \<in> set (zip (cp this) (cp l)). pdist p q \<le> tol))
    \<and> (\<not> pdist (hd (cp l)) (hd (cp this)) < tol \<and> pdist (hd (cp l)) (last (cp this)) < tol \<longrightarrow>
            equals pdist this l tol
              = Some (\<forall>(p, q) \<in> set (zip (rev (cp this)) (cp l)). pdist p q \<le> tol))
    \<and> (\<not> pdist (hd (cp l)) (hd (cp this)) < tol \<and> \<not> pdist (hd (cp l)) (last (cp this)) < tol \<longrightarrow>
            equals pdist this l tol = Some False)"
  using assms by (simp add: equals_def Let_def equals_loop_zip)

text \<open>
  The forward pairing of 0, 4, 2, 0 with 0, 2, 4, 0 fails at the second pair, the reversed
  pairing would succeed at every pair, and the result is false.
\<close>

theorem Line_equals_commits_direction_witness:
  "cp \<lparr>cp = [0, 4, 2, 0 :: real]\<rparr> \<noteq> [] \<and> cp \<lparr>cp = [0, 2, 4, 0 :: real]\<rparr> \<noteq> []
    \<and> dist1 (hd (cp \<lparr>cp = [0, 2, 4, 0]\<rparr>)) (hd (cp \<lparr>cp = [0, 4, 2, 0]\<rparr>)) < 1 / 10
    \<and> equals_loop dist1 (1 / 10) (rev (cp \<lparr>cp = [0, 4, 2, 0]\<rparr>)) (cp \<lparr>cp = [0, 2, 4, 0]\<rparr>)
    \<and> equals dist1 \<lparr>cp = [0, 4, 2, 0]\<rparr> \<lparr>cp = [0, 2, 4, 0]\<rparr> (1 / 10) = Some False
    \<and> equals dist1 \<lparr>cp = [0, 4, 2, 6]\<rparr> \<lparr>cp = [6, 2, 4, 0]\<rparr> (1 / 10) = Some True
    \<and> equals dist1 \<lparr>cp = [0, 4, 2, 6]\<rparr> \<lparr>cp = [3, 2, 4, 0]\<rparr> (1 / 10) = Some False"
proof -
  have ne: "cp \<lparr>cp = [0, 4, 2, 0 :: real]\<rparr> \<noteq> []" "cp \<lparr>cp = [0, 2, 4, 0 :: real]\<rparr> \<noteq> []"
    "cp \<lparr>cp = [0, 4, 2, 6 :: real]\<rparr> \<noteq> []" "cp \<lparr>cp = [6, 2, 4, 0 :: real]\<rparr> \<noteq> []"
    "cp \<lparr>cp = [3, 2, 4, 0 :: real]\<rparr> \<noteq> []"
    by simp_all
  show ?thesis
    using Line_equals_commits_direction [OF ne(1) ne(2), of dist1 "1 / 10"]
      Line_equals_commits_direction [OF ne(3) ne(4), of dist1 "1 / 10"]
      Line_equals_commits_direction [OF ne(3) ne(5), of dist1 "1 / 10"]
    by (simp add: dist1_def)
qed

section \<open>Properties of the command-line program\<close>

lemma processArgs_Return:
  "processArgs ops fs args fr st = Return (fr', st') \<Longrightarrow>
     (\<forall>f \<in> set (fileArgs args). fs f \<noteq> None) \<and> \<not> missingInName args
     \<and> (fr' \<longleftrightarrow> fr \<or> fileArgs args \<noteq> [])
     \<and> cout st' = cout st \<and> cerr st' = cerr st \<and> written st' = written st"
  by (induction ops fs args fr st rule: processArgs.induct)
    (auto split: if_splits list.splits option.splits)

lemma processArgs_Exit:
  "processArgs ops fs args fr st = Exit status (fr', st') \<Longrightarrow>
     written st' = written st
     \<and> (status = 0 \<and> ''-help'' \<in> set args \<and> cout st' = cout st @ [fileUsage] \<and> cerr st' = cerr st
        \<or> status = 1 \<and> cout st' = cout st \<and> (\<exists>e. cerr st' = cerr st @ [e]))"
  by (induction ops fs args fr st rule: processArgs.induct)
    (auto split: if_splits list.splits option.splits)

lemma processArgs_accepted:
  "accepted fs pre \<Longrightarrow>
     \<exists>st'. processArgs ops fs (pre @ rest) fr st
             = processArgs ops fs rest (fr \<or> fileArgs pre \<noteq> []) st'
       \<and> cout st' = cout st \<and> cerr st' = cerr st \<and> written st' = written st"
proof (induction ops fs pre fr st rule: processArgs.induct)
  case (1 ops fs fileRead st)
  then show ?case by (intro exI [of _ st]) simp
next
  case (2 ops fs arg rest0 fileRead st)
  show ?case
  proof (cases "arg = ''-v''")
    case True
    then have "accepted fs rest0"
      using 2(4) by (simp add: accepted_def)
    from 2(1) [OF True this] True show ?thesis by auto
  next
    case v: False
    show ?thesis
    proof (cases "arg = ''-in''")
      case True
      then obtain name rest' where r: "rest0 = name # rest'"
        using 2(4) by (cases rest0) (simp_all add: accepted_def)
      have "accepted fs rest'"
        using 2(4) True r by (simp add: accepted_def)
      from 2(2) [OF v _ True r this] True r 2(4) show ?thesis
        by (auto simp: accepted_def)
    next
      case i: False
      have h: "arg \<noteq> ''-help''"
        using 2(4) by (auto simp: accepted_def)
      then obtain content where c: "fs arg = Some content"
        using 2(4) v i by (auto simp: accepted_def)
      have "accepted fs rest0"
        using 2(4) v i h by (simp add: accepted_def)
      from 2(3) [OF v h i c this] v i h c show ?thesis by auto
    qed
  qed
qed

lemma processParameters_Return:
  assumes "processParameters ops fs args st = Return st'"
  shows "cout st' = cout st \<and> cerr st' = cerr st \<and> written st' = written st"
  using assms processArgs_Return [of ops fs args False st]
  by (auto simp: processParameters_def split: outcome.splits prod.splits if_splits)

lemma processParameters_Exit:
  assumes "processParameters ops fs args st = Exit status st'"
  shows "written st' = written st"
  using assms processArgs_Return [of ops fs args False st] processArgs_Exit [of ops fs args False st]
  by (auto simp: processParameters_def split: outcome.splits prod.splits if_splits)

lemma getline_stuck: "\<not> good cin \<Longrightarrow> getline cin str = (cin, str)"
  by (simp add: getline_def)

lemma readStdin_keeps:
  assumes "readStdin ops cin str st = Some st'"
  shows "cerr st' = cerr st \<and> written st' = written st"
proof (rule readStdin.raw_induct
    [where P = "\<lambda>ops cin str st st'. cerr st' = cerr st \<and> written st' = written st",
      OF _ assms])
  fix f :: "'a SplineModel_ops \<Rightarrow> istream \<Rightarrow> string \<Rightarrow> 'a program \<Rightarrow> 'a program option"
  fix ops cin str st st'
  assume ih: "\<And>ops cin str st st'. f ops cin str st = Some st'
      \<Longrightarrow> cerr st' = cerr st \<and> written st' = written st"
  assume b: "(case getline cin str of
        (cin', str') \<Rightarrow>
          if length str' > 0
          then f ops cin' str'
                 (st\<lparr>cout := cout st @ [''> ''],
                     model := model_readModelProperties ops str' (model st)\<rparr>)
          else Some (st\<lparr>cout := cout st @ [''> ''],
                        model := model_readModelProperties ops str' (model st)\<rparr>)) = Some st'"
  obtain cin' str' where g: "getline cin str = (cin', str')"
    by (cases "getline cin str")
  show "cerr st' = cerr st \<and> written st' = written st"
  proof (cases "length str' > 0")
    case True
    with b g have "f ops cin' str'
        (st\<lparr>cout := cout st @ [''> ''],
            model := model_readModelProperties ops str' (model st)\<rparr>) = Some st'"
      by simp
    from ih [OF this] show ?thesis by simp
  next
    case False
    with b g show ?thesis by auto
  qed
qed

text \<open>
  Once the stream is not good and \<open>str\<close> holds a line that is not empty, the loop never
  ends; so it does not end on an input whose last line has no newline.
\<close>

lemma readStdin_returns_good:
  assumes "readStdin ops cin str st = Some st'"
  shows "good cin \<or> str = []"
proof (rule readStdin.raw_induct
    [where P = "\<lambda>ops cin str st st'. good cin \<or> str = []", OF _ assms])
  fix f :: "'a SplineModel_ops \<Rightarrow> istream \<Rightarrow> string \<Rightarrow> 'a program \<Rightarrow> 'a program option"
  fix ops cin str st st'
  assume ih: "\<And>ops cin str st st'. f ops cin str st = Some st' \<Longrightarrow> good cin \<or> str = []"
  assume b: "(case getline cin str of
        (cin', str') \<Rightarrow>
          if length str' > 0
          then f ops cin' str'
                 (st\<lparr>cout := cout st @ [''> ''],
                     model := model_readModelProperties ops str' (model st)\<rparr>)
          else Some (st\<lparr>cout := cout st @ [''> ''],
                        model := model_readModelProperties ops str' (model st)\<rparr>)) = Some st'"
  show "good cin \<or> str = []"
  proof (rule ccontr)
    assume "\<not> (good cin \<or> str = [])"
    then have n: "\<not> good cin" "str \<noteq> []" by simp_all
    with b have "f ops cin str
        (st\<lparr>cout := cout st @ [''> ''],
            model := model_readModelProperties ops str (model st)\<rparr>) = Some st'"
      by (simp add: getline_stuck)
    from ih [OF this] n show False by simp
  qed
qed

lemma readStdin_never_ends:
  "\<not> good cin \<Longrightarrow> str \<noteq> [] \<Longrightarrow> readStdin ops cin str st = None"
  using readStdin_returns_good [of ops cin str st] by (cases "readStdin ops cin str st") auto

lemma readStdin_no_newline:
  "readStdin ops \<lparr>buffer = ''3 face 2 wall'', good = True\<rparr> [] st = None"
  by (subst readStdin.simps) (simp add: getline_def readStdin_never_ends)

lemma readStdin_empty_line:
  "readStdin sign_ops \<lparr>buffer = [CHR 0x0A], good = True\<rparr> [] (initial [1])
     = Some ((initial [1]) \<lparr>cout := [''> '']\<rparr>)"
  by (subst readStdin.simps) (simp add: getline_def sign_ops_def initial_def)

lemma reparameterize_eq:
  \<open>reparameterize ops st =
     (if fst (model_enforceRightHandSystem ops (model st))
      then st\<lparr>model := snd (model_enforceRightHandSystem ops (model st)),
              cerr := cerr st @
                [''WARNING: system reparameterized to strict right-hand-system. '',
                 ''         stored in "reparameterized.g2"''],
              written := written st @
                [(''reparameterized.g2'',
                  model_writeSplines ops (snd (model_enforceRightHandSystem ops (model st))))]\<rparr>
      else st\<lparr>model := snd (model_enforceRightHandSystem ops (model st))\<rparr>)\<close>
  by (simp add: reparameterize_def Let_def split: prod.splits)

lemma reparameterize_keeps:
  "inFile (reparameterize ops st) = inFile st"
  "inFileName (reparameterize ops st) = inFileName st"
  by (simp_all add: reparameterize_eq)

lemma report_keeps:
  "cerr (report ops st) = cerr st" "written (report ops st) = written st"
  "inFile (report ops st) = inFile st" "inFileName (report ops st) = inFileName st"
  by (simp_all add: report_def)

lemma readProperties_Return:
  "readProperties ops fs stdin st = Some (Return st') \<Longrightarrow>
     cerr st' = cerr st \<and> written st' = written st"
  by (auto simp: readProperties_def readStdin_keeps split: if_splits option.splits)

lemma readProperties_Exit:
  \<open>readProperties ops fs stdin st = Some (Exit status st') \<Longrightarrow>
     status = 1 \<and> written st' = written st
     \<and> cerr st' = cerr st @ [''Error opening file: "'' @ inFileName st @ ''"'']\<close>
  by (auto simp: readProperties_def split: if_splits option.splits)

lemma main_Return:
  assumes "processParameters ops fs args (initial m) = Return st"
  shows \<open>written (snd (main ops fs stdin m args)) = written (reparameterize ops st)
    \<and> (cerr (snd (main ops fs stdin m args)) = cerr (reparameterize ops st)
       \<or> cerr (snd (main ops fs stdin m args))
           = cerr (reparameterize ops st) @ [''Error opening file: "'' @ inFileName st @ ''"''])\<close>
proof (cases "readProperties ops fs stdin (report ops (reparameterize ops st))")
  case None
  then show ?thesis
    using assms by (simp add: main_def report_keeps)
next
  case (Some r)
  show ?thesis
  proof (cases r)
    case (Exit status st')
    then show ?thesis
      using assms Some readProperties_Exit [of ops fs stdin _ status st']
      by (simp add: main_def report_keeps reparameterize_keeps)
  next
    case (Return st')
    then show ?thesis
      using assms Some readProperties_Return [of ops fs stdin _ st']
      by (simp add: main_def report_keeps)
  qed
qed

lemma accepted_simps:
  "accepted fs []"
  "accepted fs (''-v'' # xs) = accepted fs xs"
  "accepted fs (''-in'' # name # xs) = accepted fs xs"
  "\<not> accepted fs [''-in'']"
  "\<not> accepted fs (''-help'' # xs)"
  "\<not> isFlag arg \<Longrightarrow> accepted fs (arg # xs) = (fs arg \<noteq> None \<and> accepted fs xs)"
  by (auto simp: accepted_def isFlag_def)

lemma not_accepted_split:
  "\<not> accepted fs args \<Longrightarrow>
     \<exists>pre post. accepted fs pre
       \<and> (args = pre @ ''-help'' # post \<or> args = pre @ [''-in'']
          \<or> (\<exists>arg. \<not> isFlag arg \<and> fs arg = None \<and> args = pre @ arg # post))"
proof (induction args rule: fileArgs.induct)
  case 1
  then show ?case by (simp add: accepted_simps)
next
  case (2 arg rest)
  let ?Q = "\<lambda>args pre post. accepted fs pre
       \<and> (args = pre @ ''-help'' # post \<or> args = pre @ [''-in'']
          \<or> (\<exists>arg. \<not> isFlag arg \<and> fs arg = None \<and> args = pre @ arg # post))"
  consider (c_help) "arg = ''-help''" | (c_v) "arg = ''-v''" | (c_in_last) "arg = ''-in''" "rest = []"
    | (c_in_name) name rest' where "arg = ''-in''" "rest = name # rest'"
    | (c_bad) "\<not> isFlag arg" "fs arg = None" | (c_file) "\<not> isFlag arg" "fs arg \<noteq> None"
    by (cases rest) (auto simp: isFlag_def)
  then show ?case
  proof cases
    case c_help
    then have "?Q (arg # rest) [] rest" by (simp add: accepted_simps)
    then show ?thesis by blast
  next
    case c_v
    then have "\<not> accepted fs rest" using 2(4) by (simp add: accepted_simps)
    then obtain pre post where "?Q rest pre post" using 2(1) c_v by blast
    then have "?Q (arg # rest) (''-v'' # pre) post" using c_v by (auto simp: accepted_simps)
    then show ?thesis by blast
  next
    case c_in_last
    then have "?Q (arg # rest) [] []" by (simp add: accepted_simps)
    then show ?thesis by blast
  next
    case (c_in_name name rest')
    then have "\<not> accepted fs rest'" using 2(4) by (simp add: accepted_simps)
    then obtain pre post where "?Q rest' pre post" using 2(2) c_in_name by auto
    then have "?Q (arg # rest) (''-in'' # name # pre) post"
      using c_in_name by (auto simp: accepted_simps)
    then show ?thesis by blast
  next
    case c_bad
    then have "?Q (arg # rest) [] rest" by (auto simp: accepted_simps)
    then show ?thesis by blast
  next
    case c_file
    then have "\<not> accepted fs rest" using 2(4) by (simp add: accepted_simps)
    then obtain pre post where "?Q rest pre post"
      using 2(3) c_file by (auto simp: isFlag_def)
    then have "?Q (arg # rest) (arg # pre) post" using c_file by (auto simp: accepted_simps)
    then show ?thesis by blast
  qed
qed

text \<open>
  C8, as stated, fails: with the single argument \<open>-help\<close> no input file is supplied, and
  the program prints the usage text and exits with status 0.
\<close>

theorem processParameters_help_counterexample:
  "fileArgs [''-help''] = []
    \<and> processParameters sign_ops no_files [''-help''] (initial [])
        = Exit 0 ((initial []) \<lparr>cout := [fileUsage]\<rparr>)"
  by (simp add: processParameters_def initial_def)

text \<open>
  C8, amended. The arguments are worked through in order. After arguments that are all
  accepted, the program exits with status 1 and an error line on \<open>cerr\<close> at an input file
  argument that cannot be opened for reading, and at a \<open>-in\<close> that is the last argument;
  when all arguments are accepted and none of them is an input file, it prints the usage
  text and exits with status 1; and only at a \<open>-help\<close> flag that is reached before any
  such failure it prints the usage text and exits with status 0. Every argument list that
  is not accepted as a whole has one of these three stops after an accepted beginning.
  When the arguments are accepted but the file named after \<open>-in\<close> cannot be opened (it
  is not in the file system and is not the file \<open>reparameterized.g2\<close> that the program
  has just written), \<open>main\<close> exits with status 1 after an error line on \<open>cerr\<close>; when it is
  the file just written, \<open>main\<close> reads it and exits with status 0.
\<close>

theorem processParameters_failures:
  \<open>(accepted fs pre \<and> \<not> isFlag arg \<and> fs arg = None \<longrightarrow>
      (\<exists>st'. processParameters ops fs (pre @ arg # post) st = Exit 1 st'
          \<and> cerr st' = cerr st @ [''Error reading input file "'' @ arg @ ''"'']
          \<and> cout st' = cout st))
    \<and> (accepted fs pre \<longrightarrow>
      (\<exists>st'. processParameters ops fs (pre @ [''-in'']) st = Exit 1 st'
          \<and> cerr st' = cerr st @ [''Error: must specify an input filename to read'']
          \<and> cout st' = cout st))
    \<and> (accepted fs args \<and> fileArgs args = [] \<longrightarrow>
      (\<exists>st'. processParameters ops fs args st = Exit 1 st'
          \<and> cout st' = cout st @ [fileUsage] \<and> cerr st' = cerr st))
    \<and> (accepted fs pre \<longrightarrow>
      (\<exists>st'. processParameters ops fs (pre @ ''-help'' # post) st = Exit 0 st'
          \<and> cout st' = cout st @ [fileUsage] \<and> cerr st' = cerr st))
    \<and> (\<not> accepted fs args \<longrightarrow>
      (\<exists>pre post. accepted fs pre
          \<and> (args = pre @ ''-help'' # post \<or> args = pre @ [''-in'']
             \<or> (\<exists>arg. \<not> isFlag arg \<and> fs arg = None \<and> args = pre @ arg # post))))
    \<and> (processParameters ops fs args (initial m) = Return st0 \<and> inFile st0
        \<and> fs (inFileName st0) = None
        \<and> \<not> (fst (model_enforceRightHandSystem ops (model st0))
              \<and> inFileName st0 = ''reparameterized.g2'') \<longrightarrow>
      fst (main ops fs stdin m args) = Some 1
      \<and> last (cerr (snd (main ops fs stdin m args)))
          = ''Error opening file: "'' @ inFileName st0 @ ''"'')
    \<and> (processParameters ops fs args (initial m) = Return st0 \<and> inFile st0
        \<and> fst (model_enforceRightHandSystem ops (model st0))
        \<and> inFileName st0 = ''reparameterized.g2'' \<longrightarrow>
      fst (main ops fs stdin m args) = Some 0)\<close>
proof (intro conjI impI)
  assume h: "accepted fs pre \<and> \<not> isFlag arg \<and> fs arg = None"
  then obtain st' where p: "processArgs ops fs (pre @ arg # post) False st
        = processArgs ops fs (arg # post) (False \<or> fileArgs pre \<noteq> []) st'"
      "cout st' = cout st" "cerr st' = cerr st"
    using processArgs_accepted [of fs pre ops "arg # post" False st] by blast
  have \<open>processArgs ops fs (arg # post) (False \<or> fileArgs pre \<noteq> []) st'
      = Exit 1 (False \<or> fileArgs pre \<noteq> [],
          st'\<lparr>cerr := cerr st' @ [''Error reading input file "'' @ arg @ ''"'']\<rparr>)\<close>
    using h by (simp add: isFlag_def)
  then have \<open>processParameters ops fs (pre @ arg # post) st
      = Exit 1 (st'\<lparr>cerr := cerr st' @ [''Error reading input file "'' @ arg @ ''"'']\<rparr>)\<close>
    using p(1) by (simp add: processParameters_def)
  then show \<open>\<exists>st'. processParameters ops fs (pre @ arg # post) st = Exit 1 st'
      \<and> cerr st' = cerr st @ [''Error reading input file "'' @ arg @ ''"'']
      \<and> cout st' = cout st\<close>
    using p(2,3) by simp
next
  assume h: "accepted fs pre"
  then obtain st' where p: "processArgs ops fs (pre @ [''-in'']) False st
        = processArgs ops fs [''-in''] (False \<or> fileArgs pre \<noteq> []) st'"
      "cout st' = cout st" "cerr st' = cerr st"
    using processArgs_accepted [of fs pre ops "[''-in'']" False st] by blast
  then have "processParameters ops fs (pre @ [''-in'']) st
      = Exit 1 (st'\<lparr>cerr := cerr st' @ [''Error: must specify an input filename to read'']\<rparr>)"
    by (simp add: processParameters_def)
  then show "\<exists>st'. processParameters ops fs (pre @ [''-in'']) st = Exit 1 st'
      \<and> cerr st' = cerr st @ [''Error: must specify an input filename to read'']
      \<and> cout st' = cout st"
    using p(2,3) by simp
next
  assume h: "accepted fs args \<and> fileArgs args = []"
  then obtain st' where p: "processArgs ops fs (args @ []) False st
        = processArgs ops fs [] (False \<or> fileArgs args \<noteq> []) st'"
      "cout st' = cout st" "cerr st' = cerr st"
    using processArgs_accepted [of fs args ops "[]" False st] by blast
  then have "processParameters ops fs args st = Exit 1 (st'\<lparr>cout := cout st' @ [fileUsage]\<rparr>)"
    using h by (simp add: processParameters_def)
  then show "\<exists>st'. processParameters ops fs args st = Exit 1 st'
      \<and> cout st' = cout st @ [fileUsage] \<and> cerr st' = cerr st"
    using p(2,3) by simp
next
  assume h: "accepted fs pre"
  then obtain st' where p: "processArgs ops fs (pre @ ''-help'' # post) False st
        = processArgs ops fs (''-help'' # post) (False \<or> fileArgs pre \<noteq> []) st'"
      "cout st' = cout st" "cerr st' = cerr st"
    using processArgs_accepted [of fs pre ops "''-help'' # post" False st] by blast
  then have "processParameters ops fs (pre @ ''-help'' # post) st
      = Exit 0 (st'\<lparr>cout := cout st' @ [fileUsage]\<rparr>)"
    by (simp add: processParameters_def)
  then show "\<exists>st'. processParameters ops fs (pre @ ''-help'' # post) st = Exit 0 st'
      \<and> cout st' = cout st @ [fileUsage] \<and> cerr st' = cerr st"
    using p(2,3) by simp
next
  assume "\<not> accepted fs args"
  then show "\<exists>pre post. accepted fs pre
      \<and> (args = pre @ ''-help'' # post \<or> args = pre @ [''-in'']
         \<or> (\<exists>arg. \<not> isFlag arg \<and> fs arg = None \<and> args = pre @ arg # post))"
    by (rule not_accepted_split)
next
  assume h: \<open>processParameters ops fs args (initial m) = Return st0 \<and> inFile st0
      \<and> fs (inFileName st0) = None
      \<and> \<not> (fst (model_enforceRightHandSystem ops (model st0))
            \<and> inFileName st0 = ''reparameterized.g2'')\<close>
  then have w: "written st0 = []"
    using processParameters_Return [of ops fs args "initial m" st0] by (simp add: initial_def)
  let ?st = "report ops (reparameterize ops st0)"
  have "map_of (rev (written ?st)) (inFileName st0) = None"
    using h w by (auto simp: report_keeps reparameterize_eq)
  then have \<open>readProperties ops fs stdin ?st
      = Some (Exit 1
          (?st\<lparr>cerr := cerr ?st @ [''Error opening file: "'' @ inFileName st0 @ ''"'']\<rparr>))\<close>
    using h by (simp add: readProperties_def open_read_def report_keeps reparameterize_keeps)
  then have r: \<open>main ops fs stdin m args
      = (Some 1, ?st\<lparr>cerr := cerr ?st @ [''Error opening file: "'' @ inFileName st0 @ ''"'']\<rparr>)\<close>
    using h by (simp add: main_def)
  show \<open>fst (main ops fs stdin m args) = Some 1\<close>
    unfolding r by simp
  show \<open>last (cerr (snd (main ops fs stdin m args)))
      = ''Error opening file: "'' @ inFileName st0 @ ''"''\<close>
    unfolding r by simp
next
  assume h: \<open>processParameters ops fs args (initial m) = Return st0 \<and> inFile st0
      \<and> fst (model_enforceRightHandSystem ops (model st0))
      \<and> inFileName st0 = ''reparameterized.g2''\<close>
  then have w: "written st0 = []"
    using processParameters_Return [of ops fs args "initial m" st0] by (simp add: initial_def)
  let ?st = "report ops (reparameterize ops st0)"
  have "\<exists>content. map_of (rev (written ?st)) (inFileName st0) = Some content"
    using h w by (simp add: report_keeps reparameterize_eq)
  then obtain content where "open_read fs ?st (inFileName ?st) = Some content"
    by (auto simp: open_read_def report_keeps reparameterize_keeps)
  then have "readProperties ops fs stdin ?st
      = Some (Return (?st\<lparr>model := model_readModelProperties ops content (model ?st)\<rparr>))"
    using h by (simp add: readProperties_def report_keeps reparameterize_keeps)
  then show "fst (main ops fs stdin m args) = Some 0"
    using h by (simp add: main_def)
qed

text \<open>
  An unreadable file before a \<open>-help\<close> gives status 1, the same two arguments in the
  other order give status 0; a last \<open>-in\<close> after a readable file gives status 1; the
  single argument \<open>-v\<close> gives the usage text and status 1; and an unreadable file after
  \<open>-in\<close>, here with the name \<open>reparameterized.g2\<close>, makes \<open>main\<close> exit with status 1.
\<close>

theorem processParameters_failures_witness:
  \<open>accepted no_files [] \<and> \<not> isFlag ''missing.g2'' \<and> no_files ''missing.g2'' = None
    \<and> (\<exists>st'. processParameters sign_ops no_files [''missing.g2'', ''-help''] (initial []) = Exit 1 st'
          \<and> cerr st' = cerr (initial ([] :: int list)) @ [''Error reading input file "missing.g2"'']
          \<and> cout st' = cout (initial ([] :: int list)))
    \<and> (\<exists>st'. processParameters sign_ops no_files [''-help'', ''missing.g2''] (initial []) = Exit 0 st'
          \<and> cout st' = cout (initial ([] :: int list)) @ [fileUsage]
          \<and> cerr st' = cerr (initial ([] :: int list)))
    \<and> accepted two_files [''right.g2'']
    \<and> (\<exists>st'. processParameters sign_ops two_files [''right.g2'', ''-in''] (initial []) = Exit 1 st'
          \<and> cerr st' = cerr (initial ([] :: int list))
              @ [''Error: must specify an input filename to read'']
          \<and> cout st' = cout (initial ([] :: int list)))
    \<and> accepted no_files [''-v''] \<and> fileArgs [''-v''] = []
    \<and> (\<exists>st'. processParameters sign_ops no_files [''-v''] (initial []) = Exit 1 st'
          \<and> cout st' = cout (initial ([] :: int list)) @ [fileUsage]
          \<and> cerr st' = cerr (initial ([] :: int list)))
    \<and> processParameters sign_ops two_files [''right.g2'', ''-in'', ''reparameterized.g2'']
          (initial [])
        = Return ((initial [])
            \<lparr>inFile := True, inFileName := ''reparameterized.g2'', model := [1]\<rparr>)
    \<and> two_files ''reparameterized.g2'' = None
    \<and> fst (main sign_ops two_files [] []
          [''right.g2'', ''-in'', ''reparameterized.g2'']) = Some 1\<close>
proof -
  let ?i = "initial ([] :: int list)"
  let ?st0 = "?i \<lparr>inFile := True, inFileName := ''reparameterized.g2'', model := [1::int]\<rparr>"
  have a: "accepted no_files []" "\<not> isFlag ''missing.g2''" "no_files ''missing.g2'' = None"
    "accepted two_files [''right.g2'']" "accepted no_files [''-v'']" "fileArgs [''-v''] = []"
    by (simp_all add: accepted_def isFlag_def no_files_def two_files_def)
  have c: "processParameters sign_ops two_files [''right.g2'', ''-in'', ''reparameterized.g2''] ?i
      = Return ?st0"
    by (simp add: processParameters_def two_files_def sign_ops_def initial_def)
  have d: "two_files ''reparameterized.g2'' = None" "inFile ?st0"
    "inFileName ?st0 = ''reparameterized.g2''"
    "\<not> fst (model_enforceRightHandSystem sign_ops (model ?st0))"
    by (simp_all add: two_files_def sign_ops_def)
  have 1: \<open>\<exists>st'. processParameters sign_ops no_files [''missing.g2'', ''-help''] ?i = Exit 1 st'
      \<and> cerr st' = cerr ?i @ [''Error reading input file "missing.g2"'']
      \<and> cout st' = cout ?i\<close>
    using a processParameters_failures [where pre = "[]" and arg = "''missing.g2''"
        and post = "[''-help'']" and fs = no_files and ops = sign_ops and st = ?i,
        THEN conjunct1]
    by simp
  have 2: "\<exists>st'. processParameters sign_ops no_files [''-help'', ''missing.g2''] ?i = Exit 0 st'
      \<and> cout st' = cout ?i @ [fileUsage] \<and> cerr st' = cerr ?i"
    using a processParameters_failures [where pre = "[]" and post = "[''missing.g2'']"
        and fs = no_files and ops = sign_ops and st = ?i,
        THEN conjunct2, THEN conjunct2, THEN conjunct2, THEN conjunct1]
    by simp
  have 3: "\<exists>st'. processParameters sign_ops two_files [''right.g2'', ''-in''] ?i = Exit 1 st'
      \<and> cerr st' = cerr ?i @ [''Error: must specify an input filename to read'']
      \<and> cout st' = cout ?i"
    using a processParameters_failures [where pre = "[''right.g2'']" and fs = two_files
        and ops = sign_ops and st = ?i, THEN conjunct2, THEN conjunct1]
    by simp
  have 4: "\<exists>st'. processParameters sign_ops no_files [''-v''] ?i = Exit 1 st'
      \<and> cout st' = cout ?i @ [fileUsage] \<and> cerr st' = cerr ?i"
    using a processParameters_failures [where args = "[''-v'']" and fs = no_files
        and ops = sign_ops and st = ?i, THEN conjunct2, THEN conjunct2, THEN conjunct1]
    by simp
  have 5: "fst (main sign_ops two_files [] []
      [''right.g2'', ''-in'', ''reparameterized.g2'']) = Some 1"
    using c d processParameters_failures
        [where args = "[''right.g2'', ''-in'', ''reparameterized.g2'']"
        and fs = two_files and ops = sign_ops and m = "[]" and ?st0.0 = ?st0 and stdin = "[]",
        THEN conjunct2, THEN conjunct2, THEN conjunct2, THEN conjunct2, THEN conjunct2,
        THEN conjunct1]
    by simp
  show ?thesis
    using a c d(1) 1 2 3 4 5 by blast
qed

text \<open>
  C9. When the arguments are accepted and \<open>enforceRightHandSystem\<close> returns true, \<open>main\<close>
  writes the splines of the rewritten model to the file \<open>reparameterized.g2\<close>, and to no
  other file, and starts \<open>cerr\<close> with the two lines of the warning; when it returns false
  no file is written and no warning is given. When the arguments are refused no file is
  written either.
\<close>

theorem main_writes_reparameterized:
  \<open>(processParameters ops fs args (initial m) = Return st
        \<and> fst (model_enforceRightHandSystem ops (model st)) \<longrightarrow>
      written (snd (main ops fs stdin m args))
        = [(''reparameterized.g2'',
            model_writeSplines ops (snd (model_enforceRightHandSystem ops (model st))))]
      \<and> take 2 (cerr (snd (main ops fs stdin m args)))
        = [''WARNING: system reparameterized to strict right-hand-system. '',
           ''         stored in "reparameterized.g2"''])
    \<and> (processParameters ops fs args (initial m) = Return st
        \<and> \<not> fst (model_enforceRightHandSystem ops (model st)) \<longrightarrow>
      written (snd (main ops fs stdin m args)) = []
      \<and> ''WARNING: system reparameterized to strict right-hand-system. ''
          \<notin> set (cerr (snd (main ops fs stdin m args))))
    \<and> (processParameters ops fs args (initial m) = Exit status st \<longrightarrow>
      written (snd (main ops fs stdin m args)) = [])\<close>
proof (intro conjI impI)
  assume h: "processParameters ops fs args (initial m) = Return st
      \<and> fst (model_enforceRightHandSystem ops (model st))"
  then have k: "cerr st = []" "written st = []"
    using processParameters_Return [of ops fs args "initial m" st] by (simp_all add: initial_def)
  from h have r: "processParameters ops fs args (initial m) = Return st" by simp
  show \<open>written (snd (main ops fs stdin m args))
      = [(''reparameterized.g2'', model_writeSplines ops (snd (model_enforceRightHandSystem ops (model st))))]\<close>
    using h k main_Return [OF r, of stdin] by (simp add: reparameterize_eq)
  show \<open>take 2 (cerr (snd (main ops fs stdin m args)))
      = [''WARNING: system reparameterized to strict right-hand-system. '',
         ''         stored in "reparameterized.g2"'']\<close>
    using h k main_Return [OF r, of stdin] by (auto simp: reparameterize_eq)
next
  assume h: "processParameters ops fs args (initial m) = Return st
      \<and> \<not> fst (model_enforceRightHandSystem ops (model st))"
  then have k: "cerr st = []" "written st = []"
    using processParameters_Return [of ops fs args "initial m" st] by (simp_all add: initial_def)
  from h have r: "processParameters ops fs args (initial m) = Return st" by simp
  show "written (snd (main ops fs stdin m args)) = []"
    using h k main_Return [OF r, of stdin] by (simp add: reparameterize_eq)
  show "''WARNING: system reparameterized to strict right-hand-system. ''
      \<notin> set (cerr (snd (main ops fs stdin m args)))"
    using h k main_Return [OF r, of stdin] by (auto simp: reparameterize_eq)
next
  assume "processParameters ops fs args (initial m) = Exit status st"
  then show "written (snd (main ops fs stdin m args)) = []"
    using processParameters_Exit [of ops fs args "initial m" status st]
    by (simp add: main_def initial_def)
qed

theorem main_writes_reparameterized_witness:
  "processParameters sign_ops two_files [''left.g2''] (initial [])
      = Return ((initial []) \<lparr>model := [- 1]\<rparr>)
    \<and> fst (model_enforceRightHandSystem sign_ops (model ((initial []) \<lparr>model := [- 1 :: int]\<rparr>)))
    \<and> written (snd (main sign_ops two_files [] [] [''left.g2''])) = [(''reparameterized.g2'', ''p'')]
    \<and> processParameters sign_ops two_files [''right.g2''] (initial [])
      = Return ((initial []) \<lparr>model := [1]\<rparr>)
    \<and> \<not> fst (model_enforceRightHandSystem sign_ops (model ((initial []) \<lparr>model := [1 :: int]\<rparr>)))
    \<and> written (snd (main sign_ops two_files [] [] [''right.g2''])) = []
    \<and> processParameters sign_ops two_files [''-in''] (initial [])
      = Exit 1 ((initial []) \<lparr>cerr := [''Error: must specify an input filename to read'']\<rparr>)
    \<and> written (snd (main sign_ops two_files [] [] [''-in''])) = []"
proof -
  have a: "processParameters sign_ops two_files [''left.g2''] (initial [])
      = Return ((initial []) \<lparr>model := [- 1]\<rparr>)"
    "fst (model_enforceRightHandSystem sign_ops (model ((initial []) \<lparr>model := [- 1 :: int]\<rparr>)))"
    by (simp_all add: processParameters_def two_files_def sign_ops_def initial_def)
  have b: "processParameters sign_ops two_files [''right.g2''] (initial [])
      = Return ((initial []) \<lparr>model := [1]\<rparr>)"
    "\<not> fst (model_enforceRightHandSystem sign_ops (model ((initial []) \<lparr>model := [1 :: int]\<rparr>)))"
    by (simp_all add: processParameters_def two_files_def sign_ops_def initial_def)
  have c: "processParameters sign_ops two_files [''-in''] (initial [])
      = Exit 1 ((initial []) \<lparr>cerr := [''Error: must specify an input filename to read'']\<rparr>)"
    by (simp add: processParameters_def initial_def)
  have e: "model_writeSplines sign_ops (snd (model_enforceRightHandSystem sign_ops
      (model ((initial []) \<lparr>model := [- 1 :: int]\<rparr>)))) = ''p''"
    by (simp add: sign_ops_def)
  have 1: "written (snd (main sign_ops two_files [] [] [''left.g2'']))
      = [(''reparameterized.g2'', ''p'')]"
    using a e main_writes_reparameterized [where ops = sign_ops and fs = two_files
        and args = "[''left.g2'']" and m = "[]" and st = "(initial []) \<lparr>model := [- 1]\<rparr>"
        and stdin = "[]", THEN conjunct1]
    by simp
  have 2: "written (snd (main sign_ops two_files [] [] [''right.g2''])) = []"
    using b main_writes_reparameterized [where ops = sign_ops and fs = two_files
        and args = "[''right.g2'']" and m = "[]" and st = "(initial []) \<lparr>model := [1]\<rparr>"
        and stdin = "[]", THEN conjunct2, THEN conjunct1]
    by simp
  have 3: "written (snd (main sign_ops two_files [] [] [''-in''])) = []"
    using c main_writes_reparameterized [where ops = sign_ops and fs = two_files
        and args = "[''-in'']" and m = "[]" and stdin = "[]", THEN conjunct2, THEN conjunct2]
    by simp
  show ?thesis
    using a b c 1 2 3 by simp
qed

section \<open>Properties of the orientation enforcement\<close>

lemma enforce_patches_changed:
  "fst (enforce_patches K vs) \<longleftrightarrow> (\<exists>v \<in> set vs. jacobian K v < 0)"
  by (induction vs) (auto simp: Let_def split: prod.splits)

lemma enforce_patches_map:
  "snd (enforce_patches K vs)
     = map (\<lambda>v. if jacobian K v < 0 then reverseParameterDirection K v else v) vs"
  by (induction vs) (auto simp: Let_def split: prod.splits)

lemma enforce_patches_fixed:
  assumes "\<forall>v \<in> set vs. \<not> jacobian K v < 0"
  shows "enforce_patches K vs = (False, vs)"
  using assms by (induction vs) (auto simp: Let_def split: prod.splits)

lemma enforce_patches_right_handed:
  assumes "\<forall>v \<in> set vs. jacobian K v < 0 \<longrightarrow> \<not> jacobian K (reverseParameterDirection K v) < 0"
  shows "\<forall>v \<in> set (snd (enforce_patches K vs)). \<not> jacobian K v < 0"
  using assms unfolding enforce_patches_map by auto

text \<open>
  C6. Provided the kernel's reversal leaves no patch of the model with a negative Jacobian
  that had one before, a second consecutive call of \<open>enforceRightHandSystem\<close> returns
  false and changes nothing; and on a volumetric model with a left-handed patch the first
  call returns true.
\<close>

theorem enforceRightHandSystem_idempotent:
  assumes "\<forall>v \<in> set (spline_volumes m).
      jacobian K v < 0 \<longrightarrow> \<not> jacobian K (reverseParameterDirection K v) < 0"
  shows "enforceRightHandSystem K (snd (enforceRightHandSystem K m))
      = (False, snd (enforceRightHandSystem K m))
    \<and> (volumetric_model m \<and> (\<exists>v \<in> set (spline_volumes m). jacobian K v < 0) \<longrightarrow>
          fst (enforceRightHandSystem K m))"
proof (cases "volumetric_model m")
  case False
  then show ?thesis by (simp add: enforceRightHandSystem_def)
next
  case True
  obtain changed vs' where e: "enforce_patches K (spline_volumes m) = (changed, vs')"
    by (cases "enforce_patches K (spline_volumes m)")
  have "\<forall>v \<in> set vs'. \<not> jacobian K v < 0"
    using enforce_patches_right_handed [OF assms] e by simp
  then have "enforce_patches K vs' = (False, vs')"
    by (rule enforce_patches_fixed)
  moreover have "changed \<longleftrightarrow> (\<exists>v \<in> set (spline_volumes m). jacobian K v < 0)"
    using enforce_patches_changed [of K "spline_volumes m"] e by simp
  ultimately show ?thesis
    using True e by (simp add: enforceRightHandSystem_def)
qed

text \<open>
  The example of the specification: one left-handed unit cube. The first call returns
  true and gives the unit cube, the second call returns false and changes nothing.
\<close>

theorem enforceRightHandSystem_idempotent_witness:
  "jacobian cube_kernel left_handed_cube < 0
    \<and> \<not> jacobian cube_kernel (reverseParameterDirection cube_kernel left_handed_cube) < 0
    \<and> enforceRightHandSystem cube_kernel
          \<lparr>volumetric_model = True, spline_volumes = [left_handed_cube]\<rparr>
        = (True, \<lparr>volumetric_model = True, spline_volumes = [unit_cube]\<rparr>)
    \<and> enforceRightHandSystem cube_kernel
          \<lparr>volumetric_model = True, spline_volumes = [unit_cube]\<rparr>
        = (False, \<lparr>volumetric_model = True, spline_volumes = [unit_cube]\<rparr>)"
proof -
  let ?m = "\<lparr>volumetric_model = True, spline_volumes = [left_handed_cube]\<rparr>"
  have j: "jacobian cube_kernel left_handed_cube < 0"
    "\<not> jacobian cube_kernel (reverseParameterDirection cube_kernel left_handed_cube) < 0"
    by (simp_all add: cube_kernel_def left_handed_cube_def minus3_def plus3_def
        triple_product_def)
  then have h: "\<forall>v \<in> set (spline_volumes ?m).
      jacobian cube_kernel v < 0 \<longrightarrow>
      \<not> jacobian cube_kernel (reverseParameterDirection cube_kernel v) < 0"
    by simp
  have f: "enforceRightHandSystem cube_kernel ?m
      = (True, \<lparr>volumetric_model = True, spline_volumes = [unit_cube]\<rparr>)"
    using j(1) by (simp add: enforceRightHandSystem_def)
      (simp add: cube_kernel_def left_handed_cube_def unit_cube_def)
  show ?thesis
    using j f enforceRightHandSystem_idempotent [OF h] by simp
qed

section \<open>Properties of the global numbering\<close>

lemma assign_ranges:
  "assign c ns = (ss, c') \<Longrightarrow> ranges ss ns = [c..<c + range_total ns] \<and> c' = c + range_total ns \<and> length ss = length ns"
proof (induction c ns arbitrary: ss c' rule: assign.induct)
  case (1 c)
  then show ?case by (simp add: range_total_def)
next
  case (2 c ns)
  then show ?case by (auto simp: range_total_def Let_def split: prod.splits)
next
  case (3 c n ns)
  obtain ss1 c1 where a: "assign (c + n) ns = (ss1, c1)" by (cases "assign (c + n) ns")
  from 3(1) [OF a] have ih: "ranges ss1 ns = [c + n..<c + n + range_total ns]" "c1 = c + n + range_total ns"
      "length ss1 = length ns"
    by simp_all
  from 3(2) a have e: "ss = Some c # ss1" "c' = c1" by simp_all
  have "[c..<c + n] @ [c + n..<c + n + range_total ns] = [c..<c + n + range_total ns]"
    using upt_add_eq_append [of c "c + n" "range_total ns"] by simp
  then show ?case
    using ih e by (simp add: range_total_def add.assoc)
qed


lemma range_total_sizes:
  "range_total (map (\<lambda>x. if P x then None else Some (f x)) xs)
     = sum_list (map f (filter (\<lambda>x. \<not> P x) xs))"
  unfolding range_total_def by (induction xs) simp_all

lemma range_total_Some: "range_total (map (\<lambda>x. Some (f x)) xs) = sum_list (map f xs)"
  unfolding range_total_def by (induction xs) simp_all

lemma upt_join: "a \<le> b \<Longrightarrow> b \<le> c \<Longrightarrow> [a..<b] @ [b..<c] = [a..<(c::nat)]"
  using upt_add_eq_append [of a b "c - b"] by simp

lemma assigned_contiguous:
  "assigned T (assignNumbers T iStart) = [iStart..<iStart + total T]"
proof -
  let ?nv = "length (vertex_set T)"
  obtain ls c2 where l: "assign (iStart + ?nv) (line_sizes T) = (ls, c2)"
    by (cases "assign (iStart + ?nv) (line_sizes T)")
  obtain fs c3 where f: "assign c2 (face_sizes T) = (fs, c3)"
    by (cases "assign c2 (face_sizes T)")
  obtain ws c4 where w: "assign c3 (volume_sizes T) = (ws, c4)"
    by (cases "assign c3 (volume_sizes T)")
  have v: "map (\<lambda>k. iStart + k) [0..<?nv] = [iStart..<iStart + ?nv]"
    by (simp add: map_add_upt add.commute)
  note rl = assign_ranges [OF l] and rf = assign_ranges [OF f] and rw = assign_ranges [OF w]
  have "assigned T (assignNumbers T iStart)
      = [iStart..<iStart + ?nv] @ [iStart + ?nv..<c2] @ [c2..<c3] @ [c3..<c4]"
    using l f w v rl rf rw by (simp add: assigned_def assignNumbers_def)
  also have "\<dots> = [iStart..<c4]"
  proof -
    have le: "iStart \<le> iStart + ?nv" "iStart + ?nv \<le> c2" "c2 \<le> c3" "c3 \<le> c4"
      using rl rf rw by simp_all
    have "[c2..<c3] @ [c3..<c4] = [c2..<c4]"
      using le by (intro upt_join)
    moreover have "[iStart + ?nv..<c2] @ [c2..<c4] = [iStart + ?nv..<c4]"
      using le by (intro upt_join) simp_all
    moreover have "[iStart..<iStart + ?nv] @ [iStart + ?nv..<c4] = [iStart..<c4]"
      using le by (intro upt_join) simp_all
    ultimately show ?thesis by simp
  qed
  also have "c4 = iStart + total T"
    using rl rf rw
    by (simp add: total_def line_sizes_def face_sizes_def volume_sizes_def range_total_sizes range_total_Some)
  finally show ?thesis .
qed


lemma assign_nth:
  "assign c ns = (ss, c') \<Longrightarrow> i < length ns \<Longrightarrow> (ss ! i = None \<longleftrightarrow> ns ! i = None)"
proof (induction c ns arbitrary: ss c' i rule: assign.induct)
  case (1 c)
  then show ?case by simp
next
  case (2 c ns)
  then show ?case by (cases i) (auto simp: Let_def split: prod.splits)
next
  case (3 c n ns)
  then show ?case by (cases i) (auto simp: Let_def split: prod.splits)
qed

lemma line_start_Some:
  assumes "e < length (line_set T)" and "\<not> degenerate_line (line_set T ! e)"
  shows "\<exists>s. line_start (assignNumbers T iStart) ! e = Some s"
proof -
  let ?c1 = "iStart + length (vertex_set T)"
  obtain ls c2 where l: "assign ?c1 (line_sizes T) = (ls, c2)"
    by (cases "assign ?c1 (line_sizes T)")
  have "line_start (assignNumbers T iStart) = ls"
    using l by (simp add: assignNumbers_def Let_def split: prod.splits)
  moreover have "ls ! e \<noteq> None"
    using assign_nth [OF l, of e] assms by (simp add: line_sizes_def)
  ultimately show ?thesis by auto
qed

lemma face_start_Some:
  assumes "f < length (face_set T)" and "\<not> degenerate_face (face_set T ! f)"
  shows "\<exists>s. face_start (assignNumbers T iStart) ! f = Some s"
proof -
  let ?c1 = "iStart + length (vertex_set T)"
  obtain ls c2 where l: "assign ?c1 (line_sizes T) = (ls, c2)"
    by (cases "assign ?c1 (line_sizes T)")
  obtain fs c3 where f: "assign c2 (face_sizes T) = (fs, c3)"
    by (cases "assign c2 (face_sizes T)")
  have "face_start (assignNumbers T iStart) = fs"
    using l f by (simp add: assignNumbers_def Let_def split: prod.splits)
  moreover have "fs ! f \<noteq> None"
    using assign_nth [OF f, of f] assms by (simp add: face_sizes_def)
  ultimately show ?thesis by auto
qed

lemma edge_entry_canonical:
  assumes s: "line_start N ! (line V ! k) = Some s"
    and lc: "line_cp V ! k = cp l \<or> line_cp V ! k = rev (cp l)"
    and l: "l = line_set T ! (line V ! k)"
    and t: "0 < t" "t + 1 < length (cp l)"
  shows "\<exists>c. 0 < c \<and> c + 1 < length (cp l) \<and> line_cp V ! k ! t = cp l ! c
    \<and> fst (edge_entry N T V k) + snd (edge_entry N T V k) * (int t - 1) = int s + (int c - 1)"
proof (cases "line_cp V ! k = cp l")
  case True
  then have "edge_entry N T V k = (int s, 1)"
    using s l by (simp add: edge_entry_def)
  then show ?thesis
    using True t by (intro exI [of _ t]) simp
next
  case False
  with lc have r: "line_cp V ! k = rev (cp l)" by simp
  let ?c = "length (cp l) - Suc t"
  have e: "edge_entry N T V k = (int s + (int (line_interior l) - 1), - 1)"
    using s l False by (simp add: edge_entry_def)
  have "rev (cp l) ! t = cp l ! ?c"
    using t by (simp add: rev_nth)
  moreover have "0 < ?c" "?c + 1 < length (cp l)"
    using t by simp_all
  moreover have "int s + (int (line_interior l) - 1) + - 1 * (int t - 1) = int s + (int ?c - 1)"
    using t by (simp add: line_interior_def of_nat_diff)
  ultimately show ?thesis
    using r e by (intro exI [of _ ?c]) simp
qed


lemma local_view_length:
  "length (local_view (flip, ru, rv) g) = (if flip then row_length g else length g)"
  by (simp add: local_view_def Let_def)

lemma local_view_row_length:
  assumes "0 < (if flip then row_length g else length g)"
  shows "row_length (local_view (flip, ru, rv) g) = (if flip then length g else row_length g)"
proof -
  obtain d where d: "(if flip then row_length g else length g) = Suc d"
    using assms by (cases "if flip then row_length g else length g") simp_all
  then have "[0..<(if flip then row_length g else length g)] = 0 # [1..<Suc d]"
    by (simp add: upt_rec)
  then show ?thesis
    by (simp add: local_view_def Let_def row_length_def)
qed

lemma local_view_nth:
  assumes "b < (if flip then row_length g else length g)"
    and "a < (if flip then length g else row_length g)"
  shows "local_view (flip, ru, rv) g ! b ! a =
     (let d1 = (if flip then length g else row_length g);
          d2 = (if flip then row_length g else length g);
          a' = (if ru then d1 - 1 - a else a);
          b' = (if rv then d2 - 1 - b else b)
      in if flip then g ! a' ! b' else g ! b' ! a')"
  using assms by (cases flip) (simp_all add: local_view_def Let_def)

lemma surface_triple_canonical:
  fixes g :: "'p list list"
  defines "n1 \<equiv> row_length g" and "n2 \<equiv> length g"
  assumes a: "0 < a" "a + 1 < (if flip then n2 else n1)"
    and b: "0 < b" "b + 1 < (if flip then n1 else n2)"
  shows "\<exists>i j. 0 < i \<and> i + 1 < n1 \<and> 0 < j \<and> j + 1 < n2
    \<and> local_view (flip, ru, rv) g ! b ! a = g ! j ! i
    \<and> (case surface_triple s (int n1 - 2) (int n2 - 2) (flip, ru, rv) of
          (start, incr_i, incr_j) \<Rightarrow> start + incr_i * (int a - 1) + incr_j * (int b - 1))
        = s + (int i - 1) + (int j - 1) * (int n1 - 2)"
proof -
  let ?d1 = "if flip then n2 else n1" and ?d2 = "if flip then n1 else n2"
  define a' where "a' = (if ru then ?d1 - 1 - a else a)"
  define b' where "b' = (if rv then ?d2 - 1 - b else b)"
  define i where "i = (if flip then b' else a')"
  define j where "j = (if flip then a' else b')"
  have v: "local_view (flip, ru, rv) g ! b ! a = g ! j ! i"
    using a b local_view_nth [of b flip g a ru rv]
    by (cases flip) (simp_all add: n1_def n2_def Let_def a'_def b'_def i_def j_def)
  have ra: "0 < a'" "a' + 1 < ?d1" and rb: "0 < b'" "b' + 1 < ?d2"
    using a b by (auto simp: a'_def b'_def split: if_splits)
  have r: "0 < i" "i + 1 < n1" "0 < j" "j + 1 < n2"
    using ra rb by (auto simp: i_def j_def split: if_splits)
  have ia: "int a' = (if ru then int ?d1 - 1 - int a else int a)"
    using a by (simp add: a'_def of_nat_diff)
  have ib: "int b' = (if rv then int ?d2 - 1 - int b else int b)"
    using b by (simp add: b'_def of_nat_diff)
  have f: "(case surface_triple s (int n1 - 2) (int n2 - 2) (flip, ru, rv) of
          (start, incr_i, incr_j) \<Rightarrow> start + incr_i * (int a - 1) + incr_j * (int b - 1))
        = s + (int i - 1) + (int j - 1) * (int n1 - 2)"
    unfolding surface_triple_def i_def j_def
    by (cases flip; cases ru; cases rv; simp add: ia ib algebra_simps)
  show ?thesis
    using v r f by blast
qed


lemma row_length_nth:
  assumes "list_all (\<lambda>r. length r = row_length g) g" and "j < length g"
  shows "length (g ! j) = row_length g"
  using assms by (simp add: list_all_length)

lemma grid_inj:
  assumes rect: "list_all (\<lambda>r. length r = row_length g) g"
    and d: "distinct (concat g)"
    and i: "i < row_length g" "i' < row_length g"
    and j: "j < length g" "j' < length g"
    and eq: "g ! j ! i = g ! j' ! i'"
  shows "i = i' \<and> j = j'"
proof -
  have len: "length (g ! j) = row_length g" "length (g ! j') = row_length g"
    using rect j by (simp_all add: row_length_nth)
  have mem: "g ! j \<in> set g" "g ! j' \<in> set g"
    using j by simp_all
  have "g ! j ! i \<in> set (g ! j) \<inter> set (g ! j')"
    using i len eq by (metis IntI nth_mem)
  then have rows: "g ! j = g ! j'"
    using d mem unfolding distinct_concat_iff by blast
  have "[] \<notin> set g"
    using rect i by (auto simp: list_all_iff)
  then have "removeAll [] g = g"
    by simp
  then have "distinct g"
    using d unfolding distinct_concat_iff by simp
  then have jj: "j = j'"
    using rows j by (simp add: nth_eq_iff_index_eq)
  have "distinct (g ! j)"
    using d mem unfolding distinct_concat_iff by blast
  then have "i = i'"
    using eq jj i len by (simp add: nth_eq_iff_index_eq)
  with jj show ?thesis by simp
qed

lemma list_all_zip_nth:
  assumes "list_all P (zip xs ys)" and "length ys = length xs" and "k < length xs"
  shows "P (xs ! k, ys ! k)"
  using assms by (simp add: list_all_length)

lemma wf_volume_line:
  assumes "wf_volume T V" and "k < length (line V)"
  shows "line V ! k < length (line_set T)
    \<and> (line_cp V ! k = cp (line_set T ! (line V ! k))
       \<or> line_cp V ! k = rev (cp (line_set T ! (line V ! k))))"
proof -
  have "list_all (\<lambda>(e, lc). e < length (line_set T)
          \<and> (lc = cp (line_set T ! e) \<or> lc = rev (cp (line_set T ! e))))
         (zip (line V) (line_cp V))" "length (line_cp V) = length (line V)"
    using assms(1) by (simp_all add: wf_volume_def)
  from list_all_zip_nth [OF this assms(2)] show ?thesis by simp
qed

lemma wf_volume_face:
  assumes "wf_volume T V" and "k < length (face V)"
  shows "face V ! k < length (face_set T)
    \<and> (\<exists>o3 \<in> set orientations. face_cp V ! k = local_view o3 (grid (face_set T ! (face V ! k))))"
proof -
  have "list_all (\<lambda>(f, fc). f < length (face_set T)
          \<and> list_ex (\<lambda>o3. fc = local_view o3 (grid (face_set T ! f))) orientations)
         (zip (face V) (face_cp V))" "length (face_cp V) = length (face V)"
    using assms(1) by (simp_all add: wf_volume_def)
  from list_all_zip_nth [OF this assms(2)] show ?thesis by (simp add: list_ex_iff)
qed

lemma wf_topology_nth:
  assumes "wf_topology T"
  shows "p < length (volume_set T) \<Longrightarrow> wf_volume T (volume_set T ! p)"
    and "e < length (line_set T) \<Longrightarrow> wf_line (line_set T ! e)"
    and "f < length (face_set T) \<Longrightarrow> wf_face (face_set T ! f)"
  using assms by (simp_all add: wf_topology_def list_all_length)

lemma makeEnumeration_nth:
  "k < length (corner (volume_set T ! p)) \<Longrightarrow>
     vertex (makeEnumeration N T p) ! k = int (vertex_no N ! (corner (volume_set T ! p) ! k))"
  "k < length (line (volume_set T ! p)) \<Longrightarrow>
     edge_number (makeEnumeration N T p) k t
       = fst (edge_entry N T (volume_set T ! p) k)
         + snd (edge_entry N T (volume_set T ! p) k) * (int t - 1)"
  "k < length (face (volume_set T ! p)) \<Longrightarrow>
     surface_number (makeEnumeration N T p) k a b
       = (case surface_entry N T (volume_set T ! p) k of
            (start, incr_i, incr_j) \<Rightarrow> start + incr_i * (int a - 1) + incr_j * (int b - 1))"
  by (simp_all add: makeEnumeration_def Let_def edge_number_def surface_number_def
      split: prod.splits)

lemma line_number_canonical:
  assumes wf: "wf_topology T" and p: "p < length (volume_set T)"
    and k: "k < length (line (volume_set T ! p))"
    and nd: "\<not> degenerate_line (line_set T ! (line (volume_set T ! p) ! k))"
    and t: "0 < t" "t + 1 < length (line_cp (volume_set T ! p) ! k)"
  shows "\<exists>c s. line_start (assignNumbers T iStart) ! (line (volume_set T ! p) ! k) = Some s
    \<and> 0 < c \<and> c + 1 < length (cp (line_set T ! (line (volume_set T ! p) ! k)))
    \<and> line_cp (volume_set T ! p) ! k ! t = cp (line_set T ! (line (volume_set T ! p) ! k)) ! c
    \<and> edge_number (makeEnumeration (assignNumbers T iStart) T p) k t = int s + (int c - 1)"
proof -
  let ?V = "volume_set T ! p" and ?N = "assignNumbers T iStart"
  let ?l = "line_set T ! (line ?V ! k)"
  have w: "line ?V ! k < length (line_set T)"
      "line_cp ?V ! k = cp ?l \<or> line_cp ?V ! k = rev (cp ?l)"
    using wf_volume_line [OF wf_topology_nth(1) [OF wf p] k] by simp_all
  obtain s where s: "line_start ?N ! (line ?V ! k) = Some s"
    using line_start_Some [OF w(1) nd] by blast
  have t': "t + 1 < length (cp ?l)"
    using t(2) w(2) by auto
  from edge_entry_canonical [OF s w(2) refl t(1) t']
  show ?thesis
    using s makeEnumeration_nth(2) [OF k] by auto
qed


lemma face_number_canonical:
  assumes wf: "wf_topology T" and p: "p < length (volume_set T)"
    and k: "k < length (face (volume_set T ! p))"
    and nd: "\<not> degenerate_face (face_set T ! (face (volume_set T ! p) ! k))"
    and a: "0 < a" "a + 1 < row_length (face_cp (volume_set T ! p) ! k)"
    and b: "0 < b" "b + 1 < length (face_cp (volume_set T ! p) ! k)"
  shows "\<exists>i j s. face_start (assignNumbers T iStart) ! (face (volume_set T ! p) ! k) = Some s
    \<and> 0 < i \<and> i + 1 < row_length (grid (face_set T ! (face (volume_set T ! p) ! k)))
    \<and> 0 < j \<and> j + 1 < length (grid (face_set T ! (face (volume_set T ! p) ! k)))
    \<and> face_cp (volume_set T ! p) ! k ! b ! a
        = grid (face_set T ! (face (volume_set T ! p) ! k)) ! j ! i
    \<and> surface_number (makeEnumeration (assignNumbers T iStart) T p) k a b
        = int s + (int i - 1)
          + (int j - 1) * (int (row_length (grid (face_set T ! (face (volume_set T ! p) ! k)))) - 2)"
proof -
  let ?V = "volume_set T ! p" and ?N = "assignNumbers T iStart"
  let ?g = "grid (face_set T ! (face ?V ! k))" and ?fc = "face_cp ?V ! k"
  have w: "face ?V ! k < length (face_set T)"
      "\<exists>o3 \<in> set orientations. ?fc = local_view o3 ?g"
    using wf_volume_face [OF wf_topology_nth(1) [OF wf p] k] by simp_all
  obtain s where s: "face_start ?N ! (face ?V ! k) = Some s"
    using face_start_Some [OF w(1) nd] by blast
  obtain o0 where o0: "o0 \<in> set orientations" "?fc = local_view o0 ?g"
    using w(2) by blast
  then have "\<exists>x. x \<in> set orientations \<and> local_view x ?g = ?fc"
    by (intro exI [of _ o0]) simp
  then have "find (\<lambda>o3. local_view o3 ?g = ?fc) orientations \<noteq> None"
    unfolding find_None_iff by simp
  then obtain o3 where o: "find (\<lambda>o3. local_view o3 ?g = ?fc) orientations = Some o3"
    by blast
  then have lv: "local_view o3 ?g = ?fc"
    by (auto simp: find_Some_iff)
  obtain flip ru rv where o3: "o3 = (flip, ru, rv)"
    by (cases o3)
  have len: "length ?fc = (if flip then row_length ?g else length ?g)"
    using lv local_view_length [of flip ru rv ?g] by (simp add: o3)
  then have "0 < (if flip then row_length ?g else length ?g)"
    using b by simp
  then have rlen: "row_length ?fc = (if flip then length ?g else row_length ?g)"
    using lv local_view_row_length [of flip ?g ru rv] by (simp add: o3)
  have a': "a + 1 < (if flip then length ?g else row_length ?g)"
    using a rlen by simp
  have b': "b + 1 < (if flip then row_length ?g else length ?g)"
    using b len by simp
  have e: "surface_entry ?N T ?V k
      = surface_triple (int s) (int (row_length ?g) - 2) (int (length ?g) - 2) (flip, ru, rv)"
    using s o by (simp add: surface_entry_def Let_def o3)
  from surface_triple_canonical [OF a(1) a' b(1) b', of ru rv "int s"]
  show ?thesis
    using s lv makeEnumeration_nth(3) [OF k, of ?N a b] unfolding e o3 by auto
qed

lemma wf_two_patches: "wf_topology two_patches"
  by code_simp

text \<open>
  C1. After \<open>generateGlobalNumbers\<close> (or its variant with a start offset) on a well-formed
  topology, for any two patches: local corner slots that refer to the same canonical vertex
  hold the same global index; for local edge slots that refer to the same non-degenerate
  canonical line, the stored formulas of the two patches give the same global index at
  interior positions that hold the same control point; and for local face slots that
  refer to the same non-degenerate canonical face, the stored formulas give the same
  global index at interior positions that hold the same control point. (The boundary of a
  face consists of its lines and vertices, the ends of a line are vertices.)
\<close>

theorem generateGlobalNumbers_consistent:
  assumes G: "G = generateGlobalNumbers T \<or> G = generateGlobalNumbersPETSc T iStart"
    and wf: "wf_topology T"
    and p: "p1 < length (volume_set T)" "p2 < length (volume_set T)"
  shows "(\<forall>k1 k2. k1 < length (corner (volume_set T ! p1))
          \<and> k2 < length (corner (volume_set T ! p2))
          \<and> corner (volume_set T ! p1) ! k1 = corner (volume_set T ! p2) ! k2 \<longrightarrow>
        vertex (G ! p1) ! k1 = vertex (G ! p2) ! k2)
    \<and> (\<forall>k1 k2 t1 t2. k1 < length (line (volume_set T ! p1))
          \<and> k2 < length (line (volume_set T ! p2))
          \<and> line (volume_set T ! p1) ! k1 = line (volume_set T ! p2) ! k2
          \<and> \<not> degenerate_line (line_set T ! (line (volume_set T ! p1) ! k1))
          \<and> 0 < t1 \<and> t1 + 1 < length (line_cp (volume_set T ! p1) ! k1)
          \<and> 0 < t2 \<and> t2 + 1 < length (line_cp (volume_set T ! p2) ! k2)
          \<and> line_cp (volume_set T ! p1) ! k1 ! t1 = line_cp (volume_set T ! p2) ! k2 ! t2 \<longrightarrow>
        edge_number (G ! p1) k1 t1 = edge_number (G ! p2) k2 t2)
    \<and> (\<forall>k1 k2 a1 b1 a2 b2. k1 < length (face (volume_set T ! p1))
          \<and> k2 < length (face (volume_set T ! p2))
          \<and> face (volume_set T ! p1) ! k1 = face (volume_set T ! p2) ! k2
          \<and> \<not> degenerate_face (face_set T ! (face (volume_set T ! p1) ! k1))
          \<and> 0 < a1 \<and> a1 + 1 < row_length (face_cp (volume_set T ! p1) ! k1)
          \<and> 0 < b1 \<and> b1 + 1 < length (face_cp (volume_set T ! p1) ! k1)
          \<and> 0 < a2 \<and> a2 + 1 < row_length (face_cp (volume_set T ! p2) ! k2)
          \<and> 0 < b2 \<and> b2 + 1 < length (face_cp (volume_set T ! p2) ! k2)
          \<and> face_cp (volume_set T ! p1) ! k1 ! b1 ! a1
              = face_cp (volume_set T ! p2) ! k2 ! b2 ! a2 \<longrightarrow>
        surface_number (G ! p1) k1 a1 b1 = surface_number (G ! p2) k2 a2 b2)"
proof -
  obtain n where n: "G = generateGlobalNumbersPETSc T n"
    using G by (auto simp: generateGlobalNumbers_def)
  let ?N = "assignNumbers T n"
  have g: "G ! p1 = makeEnumeration ?N T p1" "G ! p2 = makeEnumeration ?N T p2"
    using p by (simp_all add: n generateGlobalNumbersPETSc_def)
  let ?V1 = "volume_set T ! p1" and ?V2 = "volume_set T ! p2"
  have vertices: "vertex (G ! p1) ! k1 = vertex (G ! p2) ! k2"
    if "k1 < length (corner ?V1)" "k2 < length (corner ?V2)" "corner ?V1 ! k1 = corner ?V2 ! k2"
    for k1 k2
    using that by (simp add: g makeEnumeration_nth(1))
  have lines: "edge_number (G ! p1) k1 t1 = edge_number (G ! p2) k2 t2"
    if k: "k1 < length (line ?V1)" "k2 < length (line ?V2)"
      and e: "line ?V1 ! k1 = line ?V2 ! k2"
      and nd: "\<not> degenerate_line (line_set T ! (line ?V1 ! k1))"
      and t1: "0 < t1" "t1 + 1 < length (line_cp ?V1 ! k1)"
      and t2: "0 < t2" "t2 + 1 < length (line_cp ?V2 ! k2)"
      and eq: "line_cp ?V1 ! k1 ! t1 = line_cp ?V2 ! k2 ! t2"
    for k1 k2 t1 t2
  proof -
    let ?l = "line_set T ! (line ?V1 ! k1)"
    have nd2: "\<not> degenerate_line (line_set T ! (line ?V2 ! k2))"
      using nd e by simp
    obtain c1 s1 where 1: "line_start ?N ! (line ?V1 ! k1) = Some s1"
        "0 < c1" "c1 + 1 < length (cp ?l)" "line_cp ?V1 ! k1 ! t1 = cp ?l ! c1"
        "edge_number (makeEnumeration ?N T p1) k1 t1 = int s1 + (int c1 - 1)"
      using line_number_canonical [OF wf p(1) k(1) nd t1, of n] by blast
    obtain c2 s2 where 2: "line_start ?N ! (line ?V2 ! k2) = Some s2"
        "0 < c2" "c2 + 1 < length (cp ?l)" "line_cp ?V2 ! k2 ! t2 = cp ?l ! c2"
        "edge_number (makeEnumeration ?N T p2) k2 t2 = int s2 + (int c2 - 1)"
      using line_number_canonical [OF wf p(2) k(2) nd2 t2, of n] unfolding e [symmetric]
      by blast
    have "line ?V1 ! k1 < length (line_set T)"
      using wf_volume_line [OF wf_topology_nth(1) [OF wf p(1)] k(1)] by simp
    then have "wf_line ?l"
      using wf_topology_nth(2) [OF wf] by simp
    then have "distinct (cp ?l)"
      using nd by (simp add: wf_line_def)
    moreover have "cp ?l ! c1 = cp ?l ! c2"
      using 1(4) 2(4) eq by simp
    ultimately have "c1 = c2"
      using 1(3) 2(3) by (simp add: nth_eq_iff_index_eq)
    moreover have "s1 = s2"
      using 1(1) 2(1) e by simp
    ultimately show ?thesis
      using 1(5) 2(5) by (simp add: g)
  qed
  have faces: "surface_number (G ! p1) k1 a1 b1 = surface_number (G ! p2) k2 a2 b2"
    if k: "k1 < length (face ?V1)" "k2 < length (face ?V2)"
      and e: "face ?V1 ! k1 = face ?V2 ! k2"
      and nd: "\<not> degenerate_face (face_set T ! (face ?V1 ! k1))"
      and a1: "0 < a1" "a1 + 1 < row_length (face_cp ?V1 ! k1)"
      and b1: "0 < b1" "b1 + 1 < length (face_cp ?V1 ! k1)"
      and a2: "0 < a2" "a2 + 1 < row_length (face_cp ?V2 ! k2)"
      and b2: "0 < b2" "b2 + 1 < length (face_cp ?V2 ! k2)"
      and eq: "face_cp ?V1 ! k1 ! b1 ! a1 = face_cp ?V2 ! k2 ! b2 ! a2"
    for k1 k2 a1 b1 a2 b2
  proof -
    let ?g = "grid (face_set T ! (face ?V1 ! k1))"
    have nd2: "\<not> degenerate_face (face_set T ! (face ?V2 ! k2))"
      using nd e by simp
    obtain i1 j1 s1 where 1: "face_start ?N ! (face ?V1 ! k1) = Some s1"
        "0 < i1" "i1 + 1 < row_length ?g" "0 < j1" "j1 + 1 < length ?g"
        "face_cp ?V1 ! k1 ! b1 ! a1 = ?g ! j1 ! i1"
        "surface_number (makeEnumeration ?N T p1) k1 a1 b1
          = int s1 + (int i1 - 1) + (int j1 - 1) * (int (row_length ?g) - 2)"
      using face_number_canonical [OF wf p(1) k(1) nd a1 b1, of n] by blast
    obtain i2 j2 s2 where 2: "face_start ?N ! (face ?V2 ! k2) = Some s2"
        "0 < i2" "i2 + 1 < row_length ?g" "0 < j2" "j2 + 1 < length ?g"
        "face_cp ?V2 ! k2 ! b2 ! a2 = ?g ! j2 ! i2"
        "surface_number (makeEnumeration ?N T p2) k2 a2 b2
          = int s2 + (int i2 - 1) + (int j2 - 1) * (int (row_length ?g) - 2)"
      using face_number_canonical [OF wf p(2) k(2) nd2 a2 b2, of n] unfolding e [symmetric]
      by blast
    have "face ?V1 ! k1 < length (face_set T)"
      using wf_volume_face [OF wf_topology_nth(1) [OF wf p(1)] k(1)] by simp
    then have "wf_face (face_set T ! (face ?V1 ! k1))"
      using wf_topology_nth(3) [OF wf] by simp
    then have r: "list_all (\<lambda>r. length r = row_length ?g) ?g" "distinct (concat ?g)"
      using nd by (simp_all add: wf_face_def)
    have "?g ! j1 ! i1 = ?g ! j2 ! i2"
      using 1(6) 2(6) eq by simp
    then have "i1 = i2 \<and> j1 = j2"
      using grid_inj [OF r, of i1 i2 j1 j2] 1(3,5) 2(3,5) by simp
    moreover have "s1 = s2"
      using 1(1) 2(1) e by simp
    ultimately show ?thesis
      using 1(7) 2(7) by (simp add: g)
  qed
  show ?thesis
    using vertices lines faces by blast
qed

text \<open>
  On the two patches: corner 5 of the first patch and corner 0 of the second are the same
  vertex; the control point 13 is the second point of edge 2 of the first patch and the
  third point of edge 4 of the second, which runs the other way, and has the global index
  16 from both; the control point 18 is at (2, 1) on face 5 of the first patch and at
  (1, 1) on face 4 of the second, which has the directions swapped, and has the global
  index 33 from both.
\<close>

theorem generateGlobalNumbers_consistent_witness:
  "wf_topology two_patches
    \<and> corner (volume_set two_patches ! 0) ! 5 = corner (volume_set two_patches ! 1) ! 0
    \<and> vertex (generateGlobalNumbers two_patches ! 0) ! 5
        = vertex (generateGlobalNumbers two_patches ! 1) ! 0
    \<and> line (volume_set two_patches ! 0) ! 2 = line (volume_set two_patches ! 1) ! 4
    \<and> line_cp (volume_set two_patches ! 0) ! 2 ! 1 = 13
    \<and> line_cp (volume_set two_patches ! 1) ! 4 ! 2 = 13
    \<and> edge_number (generateGlobalNumbers two_patches ! 0) 2 1
        = edge_number (generateGlobalNumbers two_patches ! 1) 4 2
    \<and> edge_number (generateGlobalNumbers two_patches ! 0) 2 1 = 16
    \<and> face (volume_set two_patches ! 0) ! 5 = face (volume_set two_patches ! 1) ! 4
    \<and> face_cp (volume_set two_patches ! 0) ! 5 ! 1 ! 2 = 18
    \<and> face_cp (volume_set two_patches ! 1) ! 4 ! 1 ! 1 = 18
    \<and> surface_number (generateGlobalNumbers two_patches ! 0) 5 2 1
        = surface_number (generateGlobalNumbers two_patches ! 1) 4 1 1
    \<and> surface_number (generateGlobalNumbers two_patches ! 0) 5 2 1 = 33"
proof -
  let ?G = "generateGlobalNumbers two_patches"
  let ?V1 = "volume_set two_patches ! 0" and ?V2 = "volume_set two_patches ! 1"
  have G: "?G = generateGlobalNumbers two_patches \<or> ?G = generateGlobalNumbersPETSc two_patches 0"
    by simp
  have p: "0 < length (volume_set two_patches)" "1 < length (volume_set two_patches)"
    by code_simp+
  note th = generateGlobalNumbers_consistent [OF G wf_two_patches p]
  have hv: "5 < length (corner ?V1) \<and> 0 < length (corner ?V2)
      \<and> corner ?V1 ! 5 = corner ?V2 ! 0"
    by code_simp
  have hl: "2 < length (line ?V1) \<and> 4 < length (line ?V2) \<and> line ?V1 ! 2 = line ?V2 ! 4
      \<and> \<not> degenerate_line (line_set two_patches ! (line ?V1 ! 2))
      \<and> (0::nat) < 1 \<and> 1 + 1 < length (line_cp ?V1 ! 2)
      \<and> (0::nat) < 2 \<and> 2 + 1 < length (line_cp ?V2 ! 4)
      \<and> line_cp ?V1 ! 2 ! 1 = line_cp ?V2 ! 4 ! 2"
    by code_simp
  have hf: "5 < length (face ?V1) \<and> 4 < length (face ?V2) \<and> face ?V1 ! 5 = face ?V2 ! 4
      \<and> \<not> degenerate_face (face_set two_patches ! (face ?V1 ! 5))
      \<and> (0::nat) < 2 \<and> 2 + 1 < row_length (face_cp ?V1 ! 5)
      \<and> (0::nat) < 1 \<and> 1 + 1 < length (face_cp ?V1 ! 5)
      \<and> (0::nat) < 1 \<and> 1 + 1 < row_length (face_cp ?V2 ! 4)
      \<and> (0::nat) < 1 \<and> 1 + 1 < length (face_cp ?V2 ! 4)
      \<and> face_cp ?V1 ! 5 ! 1 ! 2 = face_cp ?V2 ! 4 ! 1 ! 1"
    by code_simp
  have v: "vertex (?G ! 0) ! 5 = vertex (?G ! 1) ! 0"
    using th [THEN conjunct1, rule_format, OF hv] .
  have l: "edge_number (?G ! 0) 2 1 = edge_number (?G ! 1) 4 2"
    using th [THEN conjunct2, THEN conjunct1, rule_format, OF hl] .
  have f: "surface_number (?G ! 0) 5 2 1 = surface_number (?G ! 1) 4 1 1"
    using th [THEN conjunct2, THEN conjunct2, rule_format, OF hf] .
  have e: "corner ?V1 ! 5 = corner ?V2 ! 0" "line ?V1 ! 2 = line ?V2 ! 4"
    "line_cp ?V1 ! 2 ! 1 = 13" "line_cp ?V2 ! 4 ! 2 = 13"
    "face ?V1 ! 5 = face ?V2 ! 4" "face_cp ?V1 ! 5 ! 1 ! 2 = 18" "face_cp ?V2 ! 4 ! 1 ! 1 = 18"
    by code_simp+
  have n: "edge_number (?G ! 0) 2 1 = 16" "surface_number (?G ! 0) 5 2 1 = 33"
    by code_simp+
  show ?thesis
    using wf_two_patches v l f e n by simp
qed

text \<open>
  C7. The indices that the assignment pass of \<open>generateGlobalNumbers\<close> hands out, in
  the order vertices, non-degenerate lines, non-degenerate faces, volumes, are exactly
  \<open>iStart\<close>, \<open>iStart + 1\<close>, ... without gap or repetition, and their number is the number
  of canonical vertices plus the interior points (all points but the two ends) of the
  non-degenerate lines, of the non-degenerate faces and of the volumes; \<open>iStart\<close> is 0
  for the plain variant and the start offset for the PETSc variant.
\<close>

theorem assignNumbers_contiguous:
  "assigned T (assignNumbers T iStart) = [iStart..<iStart + total T]
    \<and> distinct (assigned T (assignNumbers T iStart))
    \<and> card (set (assigned T (assignNumbers T iStart))) = total T
    \<and> next_no (assignNumbers T iStart) = iStart + total T"
proof -
  have n: "next_no (assignNumbers T iStart) = iStart + total T"
  proof -
    let ?nv = "length (vertex_set T)"
    obtain ls c2 where l: "assign (iStart + ?nv) (line_sizes T) = (ls, c2)"
      by (cases "assign (iStart + ?nv) (line_sizes T)")
    obtain fs c3 where f: "assign c2 (face_sizes T) = (fs, c3)"
      by (cases "assign c2 (face_sizes T)")
    obtain ws c4 where w: "assign c3 (volume_sizes T) = (ws, c4)"
      by (cases "assign c3 (volume_sizes T)")
    have "next_no (assignNumbers T iStart) = c4"
      using l f w by (simp add: assignNumbers_def)
    then show ?thesis
      using assign_ranges [OF l] assign_ranges [OF f] assign_ranges [OF w]
      by (simp add: total_def line_sizes_def face_sizes_def volume_sizes_def
          range_total_sizes range_total_Some)
  qed
  show ?thesis
    unfolding assigned_contiguous using n by simp
qed

theorem assignNumbers_contiguous_witness:
  "assigned two_patches (assignNumbers two_patches 0) = [0..<36]
    \<and> total two_patches = 36
    \<and> length (vertex_set two_patches) = 12
    \<and> next_no (assignNumbers two_patches 7) = 43"
proof -
  have t: "total two_patches = 36" "length (vertex_set two_patches) = 12"
    by code_simp+
  show ?thesis
    using assignNumbers_contiguous [of two_patches 0] assignNumbers_contiguous [of two_patches 7] t
    by simp
qed

end
